theory Spec2Isabelle
  imports Main "HOL-Library.Word"
begin

unbundle bit_operations_syntax

section \<open>Client fingerprint (package fingerprint)\<close>

text \<open>
  A Go string is a sequence of bytes; \<open>[]byte(data)\<close> reads them off. The digest
  \<open>sha256.Sum256\<close> belongs to the standard library and is taken as a parameter;
  \<open>hex.EncodeToString\<close> is written out (two lower-case digits per byte, high nibble
  first).
\<close>

type_synonym bytes = "8 word list"

definition bytes_of :: "string \<Rightarrow> bytes" where
  "bytes_of s = map of_char s"

definition hextable :: string where
  "hextable = ''0123456789abcdef''"

definition hex_EncodeToString :: "bytes \<Rightarrow> string" where
  "hex_EncodeToString src =
     concat (map (\<lambda>v. [hextable ! unat (drop_bit 4 v), hextable ! unat (v AND 0x0f)]) src)"

text \<open>\<open>fmt.Sprintf("%s%s", ipAddress, userAgent)\<close> is the concatenation of the two strings.\<close>

definition Generate :: "(bytes \<Rightarrow> bytes) \<Rightarrow> string \<Rightarrow> string \<Rightarrow> string" where
  "Generate sha256_Sum256 ipAddress userAgent =
     (let data = ipAddress @ userAgent;
          hash = sha256_Sum256 (bytes_of data)
      in hex_EncodeToString hash)"

section \<open>Errors\<close>

text \<open>
  Error values of package mq. \<open>AmqpError\<close> is an error handed back by a library
  (amqp091-go, encoding/json); \<open>ContextError\<close> is what \<open>ctx.Err()\<close> returns once the
  context is done; \<open>ErrorString\<close> is \<open>fmt.Errorf\<close> of a format without \<open>%w\<close>;
  \<open>WrapError fmt ds e\<close> is \<open>fmt.Errorf(fmt, ds..., e)\<close> for a format that ends in
  \<open>%w\<close>, with the integer operands \<open>ds\<close> of its \<open>%d\<close> verbs and the operand \<open>e\<close> of
  \<open>%w\<close> (\<open>None\<close> when that operand is a nil error).
\<close>

datatype ctx_error = Canceled | DeadlineExceeded

datatype error =
    AmqpError string
  | ContextError ctx_error
  | ErrorString string
  | WrapError string "int list" "error option"

fun Unwrap :: "error \<Rightarrow> error option" where
  "Unwrap (WrapError f ds e) = e"
| "Unwrap _ = None"

fun digits :: "nat \<Rightarrow> string" where
  "digits n =
     (if n < 10 then [''0123456789'' ! n]
      else digits (n div 10) @ [''0123456789'' ! (n mod 10)])"

declare digits.simps [simp del]

definition Itoa :: "int \<Rightarrow> string" where
  "Itoa i = (if i < 0 then CHR ''-'' # digits (nat (- i)) else digits (nat i))"

text \<open>
  \<open>Sprintf\<close> for the two verbs the package uses: \<open>%d\<close> takes the next integer operand,
  \<open>%w\<close> prints the wrapped error's message (\<open>w\<close>, already rendered).
\<close>

fun Sprintf :: "string \<Rightarrow> int list \<Rightarrow> string \<Rightarrow> string" where
  "Sprintf [] ds w = []"
| "Sprintf [c] ds w = [c]"
| "Sprintf (c # v # cs) ds w =
     (if c = CHR ''%'' \<and> v = CHR ''d'' then
        (case ds of [] \<Rightarrow> ''%!d(MISSING)'' @ Sprintf cs ds w
                  | d # ds' \<Rightarrow> Itoa d @ Sprintf cs ds' w)
      else if c = CHR ''%'' \<and> v = CHR ''w'' then w @ Sprintf cs ds w
      else c # Sprintf (v # cs) ds w)"

fun Error_msg :: "error \<Rightarrow> string" where
  "Error_msg (AmqpError s) = s"
| "Error_msg (ContextError Canceled) = ''context canceled''"
| "Error_msg (ContextError DeadlineExceeded) = ''context deadline exceeded''"
| "Error_msg (ErrorString s) = s"
| "Error_msg (WrapError f ds None) = Sprintf f ds ''%!w(<nil>)''"
| "Error_msg (WrapError f ds (Some e)) = Sprintf f ds (Error_msg e)"

section \<open>The publisher (package mq)\<close>

text \<open>
  Handles (\<open>*amqp.Connection\<close>, \<open>*amqp.Channel\<close>, the confirmation channel) are
  numbers handed out by the broker side; a nil handle is \<open>None\<close>. A
  \<open>time.Duration\<close> is a signed 64-bit count of nanoseconds, so its arithmetic wraps.
  The logger and the mutex of the struct carry no data: their use shows as the
  \<open>Log\<close>, \<open>Lock\<close> and \<open>Unlock\<close> events of the trace.
\<close>

type_synonym duration = "64 word"

record Publisher =
  conn :: "nat option"
  channel :: "nat option"
  confirms :: "nat option"
  exchange :: string
  maxRetries :: int
  retryBaseDelay :: duration
  publishConfirmTimeout :: duration
  rabbitMQURL :: string

text \<open>
  Every call on the mutex, the amqp library, the logger and every blocking select is
  recorded, in program order.
\<close>

datatype level = DebugLevel | InfoLevel | WarnLevel | ErrorLevel

datatype event =
    Lock
  | Unlock
  | ChannelClose nat
  | ConnClose nat
  | Dial string
  | OpenChannel nat
  | ConfirmMode nat
  | NotifyPublish nat
  | IsClosed nat
  | PublishWithContext nat string string bytes
  | ConfirmWait "nat option" duration
  | BackoffWait duration
  | Log level string

text \<open>
  What the outside world answers during one attempt (or one call of \<open>Close\<close>): the
  results of the library calls, and which case each select takes. A receive from the
  confirmation channel delivers a \<open>Confirmation\<close> with its \<open>Ack\<close> flag.
\<close>

datatype confirm_outcome = Confirmation bool | CtxDone | ConfirmTimeout

datatype backoff_outcome = BackoffCtxDone | BackoffElapsed

record broker =
  conn_IsClosed :: bool
  amqp_Dial :: "error + nat"
  conn_Channel :: "error + nat"
  channel_Confirm :: "error option"
  channel_NotifyPublish :: nat
  channel_PublishWithContext :: "error option"
  confirm_select :: confirm_outcome
  backoff_select :: backoff_outcome
  channel_Close :: "error option"
  conn_Close :: "error option"

text \<open>\<open>connect\<close>: the mutex is taken on entry and released by \<open>defer\<close> on return.\<close>

definition connect :: "broker \<Rightarrow> Publisher \<Rightarrow> error option \<times> Publisher \<times> event list" where
  "connect b p =
     (let tr0 = [Lock]
            @ (case channel p of Some ch \<Rightarrow> [ChannelClose ch] | None \<Rightarrow> [])
            @ (case conn p of Some c \<Rightarrow> [ConnClose c] | None \<Rightarrow> [])
            @ [Dial (rabbitMQURL p)]
      in case amqp_Dial b of
           Inl err \<Rightarrow>
             (Some (WrapError ''failed to connect to RabbitMQ: %w'' [] (Some err)), p,
              tr0 @ [Unlock])
         | Inr c \<Rightarrow>
             (case conn_Channel b of
                Inl err \<Rightarrow>
                  (Some (WrapError ''failed to open channel: %w'' [] (Some err)), p,
                   tr0 @ [OpenChannel c, ConnClose c, Unlock])
              | Inr ch \<Rightarrow>
                  (case channel_Confirm b of
                     Some err \<Rightarrow>
                       (Some (WrapError ''failed to enable confirm mode: %w'' [] (Some err)), p,
                        tr0 @ [OpenChannel c, ConfirmMode ch, ChannelClose ch, ConnClose c,
                               Unlock])
                   | None \<Rightarrow>
                       (None,
                        p\<lparr>conn := Some c, channel := Some ch,
                          confirms := Some (channel_NotifyPublish b)\<rparr>,
                        tr0 @ [OpenChannel c, ConfirmMode ch, NotifyPublish ch,
                               Log InfoLevel ''RabbitMQ publisher connected'', Unlock]))))"

text \<open>
  \<open>NewPublisher\<close>: the delays are converted from milliseconds and seconds by a 64-bit
  multiplication.
\<close>

definition NewPublisher ::
  "broker \<Rightarrow> string \<Rightarrow> string \<Rightarrow> int \<Rightarrow> int \<Rightarrow> int \<Rightarrow> error + Publisher" where
  "NewPublisher b url exch maxRetries' retryBaseDelayMs confirmTimeoutSec =
     (let p = \<lparr>conn = None, channel = None, confirms = None, exchange = exch,
                maxRetries = maxRetries',
                retryBaseDelay = word_of_int retryBaseDelayMs * 1000000,
                publishConfirmTimeout = word_of_int confirmTimeoutSec * 1000000000,
                rabbitMQURL = url\<rparr>
      in case connect b p of
           (Some err, p', tr) \<Rightarrow> Inl err
         | (None, p', tr) \<Rightarrow> Inr p')"

definition isHealthy :: "broker \<Rightarrow> Publisher \<Rightarrow> bool \<times> event list" where
  "isHealthy b p =
     (case conn p of
        None \<Rightarrow> (False, [Lock, Unlock])
      | Some c \<Rightarrow>
          if conn_IsClosed b then (False, [Lock, IsClosed c, Unlock])
          else if channel p = None then (False, [Lock, IsClosed c, Unlock])
          else (True, [Lock, IsClosed c, Unlock]))"

definition reconnect :: "broker \<Rightarrow> Publisher \<Rightarrow> error option \<times> Publisher \<times> event list" where
  "reconnect b p =
     (case connect b p of
        (err, p', tr) \<Rightarrow> (err, p', Log WarnLevel ''Attempting to reconnect to RabbitMQ'' # tr))"

text \<open>
  \<open>publishWithConfirm\<close>: the handles are read under the mutex; the submission and the
  select follow after the unlock. \<open>ctx\<close> is the error \<open>ctx.Err()\<close> reports once
  \<open>ctx.Done()\<close> is closed.
\<close>

definition publishWithConfirm ::
  "broker \<Rightarrow> ctx_error \<Rightarrow> Publisher \<Rightarrow> string \<Rightarrow> bytes \<Rightarrow> error option \<times> event list" where
  "publishWithConfirm b ctx p routingKey body =
     (case channel p of
        None \<Rightarrow> (Some (ErrorString ''channel is nil''), [Lock, Unlock])
      | Some ch \<Rightarrow>
          (case channel_PublishWithContext b of
             Some err \<Rightarrow>
               (Some (WrapError ''publish failed: %w'' [] (Some err)),
                [Lock, Unlock, PublishWithContext ch (exchange p) routingKey body])
           | None \<Rightarrow>
               (let tr = [Lock, Unlock, PublishWithContext ch (exchange p) routingKey body,
                          ConfirmWait (confirms p) (publishConfirmTimeout p)]
                in case confirm_select b of
                     Confirmation ack \<Rightarrow>
                       if \<not> ack then
                         (Some (ErrorString ''publish not acknowledged by broker''), tr)
                       else (None, tr)
                   | CtxDone \<Rightarrow> (Some (ContextError ctx), tr)
                   | ConfirmTimeout \<Rightarrow> (Some (ErrorString ''confirmation timeout''), tr))))"

text \<open>
  The backoff delay \<open>p.retryBaseDelay * time.Duration(1<<uint(attempt-1))\<close>: the
  constant 1 takes the type \<open>time.Duration\<close>, the shift count is \<open>attempt - 1\<close> read as
  an unsigned 64-bit number, a count of 64 or more shifts every bit out, and the
  product wraps.
\<close>

definition backoff_delay :: "Publisher \<Rightarrow> int \<Rightarrow> duration" where
  "backoff_delay p attempt =
     retryBaseDelay p * push_bit (nat ((attempt - 1) mod 2 ^ 64)) 1"

text \<open>
  One iteration of the retry loop of \<open>Publish\<close> either returns from \<open>Publish\<close> or
  continues with the next attempt, \<open>lastErr\<close> set.
\<close>

datatype step = Return "error option" | Continue error

text \<open>The second half of the loop body, from the call of \<open>publishWithConfirm\<close> on.\<close>

definition Publish_confirm ::
  "broker \<Rightarrow> ctx_error \<Rightarrow> string \<Rightarrow> bytes \<Rightarrow> Publisher \<Rightarrow> int \<Rightarrow> event list
     \<Rightarrow> step \<times> Publisher \<times> event list" where
  "Publish_confirm b ctx routingKey body p attempt tr =
     (case publishWithConfirm b ctx p routingKey body of
        (Some err, tr1) \<Rightarrow>
          (let tr' = tr @ tr1 @ [Log WarnLevel ''Publish attempt failed''] in
           if attempt < maxRetries p then
             (case backoff_select b of
                BackoffCtxDone \<Rightarrow>
                  (Return (Some (ContextError ctx)), p,
                   tr' @ [BackoffWait (backoff_delay p attempt)])
              | BackoffElapsed \<Rightarrow>
                  (Continue err, p, tr' @ [BackoffWait (backoff_delay p attempt)]))
           else (Continue err, p, tr'))
      | (None, tr1) \<Rightarrow>
          (Return None, p, tr @ tr1 @ [Log DebugLevel ''Message published successfully'']))"

definition Publish_attempt ::
  "broker \<Rightarrow> ctx_error \<Rightarrow> string \<Rightarrow> bytes \<Rightarrow> Publisher \<Rightarrow> int
     \<Rightarrow> step \<times> Publisher \<times> event list" where
  "Publish_attempt b ctx routingKey body p attempt =
     (case isHealthy b p of
        (False, tr1) \<Rightarrow>
          (case reconnect b p of
             (Some err, p', tr2) \<Rightarrow>
               (let lastErr = WrapError ''reconnect failed: %w'' [] (Some err);
                    tr' = tr1 @ [Log WarnLevel ''Connection unhealthy, attempting reconnect'']
                          @ tr2 @ [Log ErrorLevel ''Reconnection failed'']
                in if attempt < maxRetries p' then
                     (case backoff_select b of
                        BackoffCtxDone \<Rightarrow>
                          (Return (Some (ContextError ctx)), p',
                           tr' @ [BackoffWait (backoff_delay p' attempt)])
                      | BackoffElapsed \<Rightarrow>
                          (Continue lastErr, p',
                           tr' @ [BackoffWait (backoff_delay p' attempt)]))
                   else (Continue lastErr, p', tr'))
           | (None, p', tr2) \<Rightarrow>
               Publish_confirm b ctx routingKey body p' attempt
                 (tr1 @ [Log WarnLevel ''Connection unhealthy, attempting reconnect''] @ tr2))
      | (True, tr1) \<Rightarrow> Publish_confirm b ctx routingKey body p attempt tr1)"

text \<open>
  The retry loop. \<open>env attempt\<close> is what the outside world answers during that
  attempt. The counter takes the values 1 to \<open>maxRetries + 1\<close> only and is an integer
  without wrap-around: the increment past \<open>maxRetries = 2 ^ 63 - 1\<close>, which 64-bit Go
  would wrap, is not modelled.
\<close>

function Publish_loop ::
  "(int \<Rightarrow> broker) \<Rightarrow> ctx_error \<Rightarrow> string \<Rightarrow> bytes \<Rightarrow> Publisher \<Rightarrow> int \<Rightarrow> error option
     \<Rightarrow> event list \<Rightarrow> error option \<times> Publisher \<times> event list" where
  "Publish_loop env ctx routingKey body p attempt lastErr tr =
     (if attempt \<le> maxRetries p then
        (case Publish_attempt (env attempt) ctx routingKey body p attempt of
           (Return r, p', tr') \<Rightarrow> (r, p', tr @ tr')
         | (Continue err, p', tr') \<Rightarrow>
             Publish_loop env ctx routingKey body p' (attempt + 1) (Some err) (tr @ tr'))
      else
        (Some (WrapError ''failed to publish after %d attempts: %w'' [maxRetries p] lastErr),
         p, tr))"
  by pat_completeness auto
termination
proof (relation "measure (\<lambda>(env, ctx, routingKey, body, p, attempt, lastErr, tr).
                   nat (maxRetries p + 1 - attempt))")
  show "wf (measure (\<lambda>(env, ctx, routingKey, body, p, attempt, lastErr, tr).
                   nat (maxRetries p + 1 - attempt)))"
    by simp
next
  fix env :: "int \<Rightarrow> broker" and ctx routingKey body p attempt
    and lastErr :: "error option" and tr :: "event list"
    and s :: step and q :: "Publisher \<times> event list" and err p' tr'
  assume le: "attempt \<le> maxRetries p"
    and sq: "(s, q) = Publish_attempt (env attempt) ctx routingKey body p attempt"
    and s: "s = Continue err" and q: "(p', tr') = q"
  have c: "maxRetries (fst (snd (connect b r))) = maxRetries r" for b r
    by (simp add: connect_def Let_def split: sum.splits option.splits)
  have r: "maxRetries (fst (snd (reconnect b r))) = maxRetries r" for b r
    by (cases "connect b r") (use c [of b r] in \<open>simp add: reconnect_def\<close>)
  have f: "maxRetries (fst (snd (Publish_confirm b ctx routingKey body r a t))) = maxRetries r"
    for b r a t
    by (simp add: Publish_confirm_def Let_def
          split: prod.splits option.splits backoff_outcome.splits)
  have "maxRetries (fst (snd (Publish_attempt b ctx routingKey body r a))) = maxRetries r"
    for b r a
  proof (cases "isHealthy b r")
    case (Pair h t1)
    obtain e r' t2 where rc: "reconnect b r = (e, r', t2)"
      by (cases "reconnect b r")
    with r [of b r] have "maxRetries r' = maxRetries r"
      by simp
    with Pair rc show ?thesis
      by (cases h; cases e)
         (simp_all add: Publish_attempt_def Let_def f split: backoff_outcome.splits)
  qed
  from this [of "env attempt" p attempt] sq q have "maxRetries p' = maxRetries p"
    by (metis fst_conv snd_conv)
  with le show "((env, ctx, routingKey, body, p', attempt + 1, Some err, tr @ tr'),
          (env, ctx, routingKey, body, p, attempt, lastErr, tr))
        \<in> measure (\<lambda>(env, ctx, routingKey, body, p, attempt, lastErr, tr).
                   nat (maxRetries p + 1 - attempt))"
    by simp
qed

declare Publish_loop.simps [simp del]

definition Publish ::
  "('m \<Rightarrow> error + bytes) \<Rightarrow> (int \<Rightarrow> broker) \<Rightarrow> ctx_error \<Rightarrow> Publisher \<Rightarrow> string \<Rightarrow> 'm
     \<Rightarrow> error option \<times> Publisher \<times> event list" where
  "Publish json_Marshal env ctx p routingKey message =
     (case json_Marshal message of
        Inl err \<Rightarrow> (Some (WrapError ''failed to marshal message: %w'' [] (Some err)), p, [])
      | Inr body \<Rightarrow> Publish_loop env ctx routingKey body p 1 None [])"

text \<open>\<open>Close\<close>: the mutex is held from entry to return.\<close>

definition Close :: "broker \<Rightarrow> Publisher \<Rightarrow> error option \<times> Publisher \<times> event list" where
  "Close b p =
     (let (p1, tr1) =
            (case channel p of
               Some ch \<Rightarrow>
                 (p\<lparr>channel := None\<rparr>,
                  ChannelClose ch #
                    (case channel_Close b of
                       Some err \<Rightarrow> [Log ErrorLevel ''Failed to close channel'']
                     | None \<Rightarrow> []))
             | None \<Rightarrow> (p, []))
      in case conn p1 of
           Some c \<Rightarrow>
             (case conn_Close b of
                Some err \<Rightarrow>
                  (Some err, p1,
                   [Lock] @ tr1 @ [ConnClose c, Log ErrorLevel ''Failed to close connection'',
                                   Unlock])
              | None \<Rightarrow>
                  (None, p1\<lparr>conn := None\<rparr>,
                   [Lock] @ tr1 @ [ConnClose c, Log InfoLevel ''RabbitMQ publisher closed'',
                                   Unlock]))
         | None \<Rightarrow>
             (None, p1, [Lock] @ tr1 @ [Log InfoLevel ''RabbitMQ publisher closed'', Unlock]))"

section \<open>Runs of the retry loop and readings of the trace\<close>

text \<open>
  What the calls of one attempt return. \<open>connected b p\<close> is the publisher as the
  health check and, when it fails, the reconnect leave it. \<open>attempt_error b ctx rk
  body p\<close> is the failure of the attempt: the error of the reconnect, wrapped as the
  loop keeps it in \<open>lastErr\<close>, when the publisher is unhealthy and the reconnect
  fails; otherwise what \<open>publishWithConfirm\<close> returns on the connected publisher
  (\<open>None\<close> when it succeeds).
\<close>

definition connected :: "broker \<Rightarrow> Publisher \<Rightarrow> Publisher" where
  "connected b p = (if fst (isHealthy b p) then p else fst (snd (reconnect b p)))"

definition attempt_error ::
  "broker \<Rightarrow> ctx_error \<Rightarrow> string \<Rightarrow> bytes \<Rightarrow> Publisher \<Rightarrow> error option" where
  "attempt_error b ctx rk body p =
     (if \<not> fst (isHealthy b p) \<and> fst (reconnect b p) \<noteq> None then
        map_option (\<lambda>err. WrapError ''reconnect failed: %w'' [] (Some err))
          (fst (reconnect b p))
      else fst (publishWithConfirm b ctx (connected b p) rk body))"

text \<open>
  \<open>pub_from env p a n\<close> is the publisher after the \<open>n\<close> attempts numbered \<open>a\<close>,
  \<open>a + 1\<close>, ..., and \<open>pub_before env p k\<close> the publisher on which attempt \<open>k\<close> of a
  call of \<open>Publish\<close> on \<open>p\<close> starts.
\<close>

fun pub_from :: "(int \<Rightarrow> broker) \<Rightarrow> Publisher \<Rightarrow> int \<Rightarrow> nat \<Rightarrow> Publisher" where
  "pub_from env p a 0 = p"
| "pub_from env p a (Suc n) = pub_from env (connected (env a) p) (a + 1) n"

definition pub_before :: "(int \<Rightarrow> broker) \<Rightarrow> Publisher \<Rightarrow> int \<Rightarrow> Publisher" where
  "pub_before env p k = pub_from env p 1 (nat (k - 1))"

text \<open>
  How the loop body ends on the \<open>j\<close>-th of the attempts numbered from \<open>a\<close>, and the
  events of the first \<open>n\<close> of them.
\<close>

definition attempt_from ::
  "(int \<Rightarrow> broker) \<Rightarrow> ctx_error \<Rightarrow> string \<Rightarrow> bytes \<Rightarrow> Publisher \<Rightarrow> int \<Rightarrow> nat \<Rightarrow> step" where
  "attempt_from env ctx rk body p a j =
     fst (Publish_attempt (env (a + int j)) ctx rk body (pub_from env p a j) (a + int j))"

fun trace_from ::
  "(int \<Rightarrow> broker) \<Rightarrow> ctx_error \<Rightarrow> string \<Rightarrow> bytes \<Rightarrow> Publisher \<Rightarrow> int \<Rightarrow> nat \<Rightarrow> event list" where
  "trace_from env ctx rk body p a 0 = []"
| "trace_from env ctx rk body p a (Suc n) =
     snd (snd (Publish_attempt (env a) ctx rk body p a))
       @ trace_from env ctx rk body (connected (env a) p) (a + 1) n"

text \<open>The delays of the backoff waits of a trace, in order.\<close>

fun delays :: "event list \<Rightarrow> duration list" where
  "delays [] = []"
| "delays (BackoffWait d # es) = d # delays es"
| "delays (e # es) = delays es"

text \<open>
  \<open>time.After(d)\<close> delivers once \<open>d\<close> has elapsed, at once when \<open>d\<close> is zero or
  negative: \<open>waited d\<close> is the time its timer runs, in nanoseconds.
\<close>

definition waited :: "duration \<Rightarrow> int" where
  "waited d = max 0 (sint d)"

text \<open>The two log lines by which the loop reports that an attempt has failed.\<close>

fun failure_log :: "event \<Rightarrow> bool" where
  "failure_log (Log l s) =
     (l = ErrorLevel \<and> s = ''Reconnection failed'' \<or>
      l = WarnLevel \<and> s = ''Publish attempt failed'')"
| "failure_log _ = False"



fun closes :: "event list \<Rightarrow> event list" where
  "closes [] = []"
| "closes (ChannelClose ch # es) = ChannelClose ch # closes es"
| "closes (ConnClose c # es) = ConnClose c # closes es"
| "closes (e # es) = closes es"

section \<open>Sample brokers and publishers\<close>

definition broker_ack :: broker where
  "broker_ack =
     \<lparr>conn_IsClosed = False, amqp_Dial = Inr 4, conn_Channel = Inr 5,
      channel_Confirm = None, channel_NotifyPublish = 6,
      channel_PublishWithContext = None, confirm_select = Confirmation True,
      backoff_select = BackoffElapsed, channel_Close = None, conn_Close = None\<rparr>"

definition broker_nack :: broker where
  "broker_nack = broker_ack\<lparr>confirm_select := Confirmation False\<rparr>"

definition broker_timeout :: broker where
  "broker_timeout = broker_ack\<lparr>confirm_select := ConfirmTimeout\<rparr>"

definition broker_cancel :: broker where
  "broker_cancel = broker_ack\<lparr>confirm_select := CtxDone, backoff_select := BackoffCtxDone\<rparr>"

definition broker_down :: broker where
  "broker_down =
     broker_ack\<lparr>conn_IsClosed := True,
       amqp_Dial := Inl (AmqpError ''dial tcp: connection refused'')\<rparr>"

text \<open>
  A connected publisher with the default delays (100 ms, 5 s) and \<open>n\<close> attempts, as
  \<open>NewPublisher\<close> builds it.
\<close>

definition publisher :: "int \<Rightarrow> Publisher" where
  "publisher n =
     \<lparr>conn = Some 1, channel = Some 2, confirms = Some 3,
      exchange = ''energy-metering.ingest.exchange'', maxRetries = n,
      retryBaseDelay = 100000000, publishConfirmTimeout = 5000000000,
      rabbitMQURL = ''amqps://broker''\<rparr>"

text \<open>The same publisher built with a base delay of -100 ms.\<close>

definition publisher_neg :: Publisher where
  "publisher_neg = (publisher 3)\<lparr>retryBaseDelay := - 100000000\<rparr>"

text \<open>A serialiser that succeeds on every message: the message is its own encoding.\<close>

definition marshal :: "bytes \<Rightarrow> error + bytes" where
  "marshal m = Inr m"

section \<open>Theorems\<close>

subsection \<open>Frame and trace lemmas\<close>

lemma connect_frame:
  "connect b p = (e, p', tr) \<Longrightarrow>
     maxRetries p' = maxRetries p \<and> retryBaseDelay p' = retryBaseDelay p \<and>
     rabbitMQURL p' = rabbitMQURL p \<and> exchange p' = exchange p \<and>
     publishConfirmTimeout p' = publishConfirmTimeout p"
  by (auto simp: connect_def Let_def split: sum.splits option.splits)

lemma reconnect_frame:
  "reconnect b p = (e, p', tr) \<Longrightarrow>
     maxRetries p' = maxRetries p \<and> retryBaseDelay p' = retryBaseDelay p \<and>
     rabbitMQURL p' = rabbitMQURL p \<and> exchange p' = exchange p \<and>
     publishConfirmTimeout p' = publishConfirmTimeout p"
  by (cases "connect b p") (auto simp: reconnect_def dest: connect_frame)

lemma Publish_confirm_frame:
  "Publish_confirm b ctx rk body p a t = (s, p', tr) \<Longrightarrow> p' = p"
  by (auto simp: Publish_confirm_def Let_def
        split: prod.splits option.splits backoff_outcome.splits if_splits)

lemma Publish_attempt_frame:
  assumes "Publish_attempt b ctx rk body p a = (s, p', tr)"
  shows "maxRetries p' = maxRetries p \<and> retryBaseDelay p' = retryBaseDelay p \<and>
     rabbitMQURL p' = rabbitMQURL p \<and> exchange p' = exchange p \<and>
     publishConfirmTimeout p' = publishConfirmTimeout p"
proof (cases "isHealthy b p")
  case (Pair h t1)
  obtain e r t2 where rc: "reconnect b p = (e, r, t2)"
    by (cases "reconnect b p")
  note fr = reconnect_frame [OF rc]
  show ?thesis
  proof (cases h)
    case True
    with assms Pair show ?thesis
      by (auto simp: Publish_attempt_def dest: Publish_confirm_frame)
  next
    case False
    with assms Pair rc fr show ?thesis
      by (cases e)
         (auto simp: Publish_attempt_def Let_def dest: Publish_confirm_frame
            split: backoff_outcome.splits if_splits)
  qed
qed

lemma delays_append [simp]: "delays (xs @ ys) = delays xs @ delays ys"
  by (induction xs rule: delays.induct) simp_all

lemma delays_isHealthy [simp]: "delays (snd (isHealthy b p)) = []"
  by (simp add: isHealthy_def split: option.splits)

lemma delays_connect [simp]: "delays (snd (snd (connect b p))) = []"
  by (simp add: connect_def Let_def split: sum.splits option.splits)

lemma delays_reconnect [simp]: "delays (snd (snd (reconnect b p))) = []"
  by (cases "connect b p") (use delays_connect [of b p] in \<open>simp add: reconnect_def\<close>)

lemma delays_publishWithConfirm [simp]:
  "delays (snd (publishWithConfirm b ctx p rk body)) = []"
  by (simp add: publishWithConfirm_def Let_def split: option.splits confirm_outcome.splits)

lemma Publish_confirm_delays:
  "Publish_confirm b ctx rk body p a t = (Continue e, p', tr) \<Longrightarrow>
     delays tr = delays t @ (if a < maxRetries p then [backoff_delay p a] else [])"
  using delays_publishWithConfirm [of b ctx p rk body]
  by (cases "publishWithConfirm b ctx p rk body")
     (auto simp: Publish_confirm_def Let_def
        split: option.splits backoff_outcome.splits if_splits)

lemma Publish_confirm_final_delays:
  "\<not> a < maxRetries p \<Longrightarrow>
     delays (snd (snd (Publish_confirm b ctx rk body p a t))) = delays t"
  using delays_publishWithConfirm [of b ctx p rk body]
  by (cases "publishWithConfirm b ctx p rk body")
     (auto simp: Publish_confirm_def Let_def split: option.splits)

lemma Publish_attempt_final_delays:
  assumes "\<not> a < maxRetries p"
  shows "delays (snd (snd (Publish_attempt b ctx rk body p a))) = []"
proof (cases "isHealthy b p")
  case (Pair h t1)
  obtain e r t2 where rc: "reconnect b p = (e, r, t2)"
    by (cases "reconnect b p")
  note fr = reconnect_frame [OF rc]
  have t1: "delays t1 = []"
    using delays_isHealthy [of b p] Pair by simp
  have t2: "delays t2 = []"
    using delays_reconnect [of b p] rc by simp
  from assms fr have r: "\<not> a < maxRetries r"
    by simp
  show ?thesis
  proof (cases h)
    case True
    with assms Pair t1 show ?thesis
      by (simp add: Publish_attempt_def Publish_confirm_final_delays)
  next
    case False
    with assms Pair rc t1 t2 r show ?thesis
      by (cases e) (simp_all add: Publish_attempt_def Let_def Publish_confirm_final_delays)
  qed
qed

lemma Publish_attempt_delays:
  assumes "Publish_attempt b ctx rk body p a = (Continue e, p', tr)"
  shows "delays tr = (if a < maxRetries p then [backoff_delay p a] else [])"
proof (cases "isHealthy b p")
  case (Pair h t1)
  obtain e' r t2 where rc: "reconnect b p = (e', r, t2)"
    by (cases "reconnect b p")
  note fr = reconnect_frame [OF rc]
  have t1: "delays t1 = []"
    using delays_isHealthy [of b p] Pair by simp
  have t2: "delays t2 = []"
    using delays_reconnect [of b p] rc by simp
  show ?thesis
  proof (cases h)
    case True
    with assms Pair t1 show ?thesis
      by (auto simp: Publish_attempt_def dest!: Publish_confirm_delays)
  next
    case False
    show ?thesis
    proof (cases e')
      case None
      with assms Pair rc False have
        "Publish_confirm b ctx rk body r a
           (t1 @ [Log WarnLevel ''Connection unhealthy, attempting reconnect''] @ t2)
         = (Continue e, p', tr)"
        by (simp add: Publish_attempt_def)
      from Publish_confirm_delays [OF this] t1 t2 fr show ?thesis
        by (simp add: backoff_delay_def)
    next
      case (Some err)
      with assms Pair rc False t1 t2 fr show ?thesis
        by (auto simp: Publish_attempt_def Let_def backoff_delay_def
              split: backoff_outcome.splits if_splits)
    qed
  qed
qed

lemma NewPublisher_publisher:
  "NewPublisher (broker_ack\<lparr>amqp_Dial := Inr 1, conn_Channel := Inr 2,
       channel_NotifyPublish := 3\<rparr>)
     ''amqps://broker'' ''energy-metering.ingest.exchange'' n 100 5 = Inr (publisher n)"
  by (simp add: NewPublisher_def connect_def Let_def broker_ack_def publisher_def)

subsection \<open>The retry loop\<close>

lemma Publish_confirm_step:
  "fst (Publish_confirm b ctx rk body p a t) =
     (case fst (publishWithConfirm b ctx p rk body) of
        None \<Rightarrow> Return None
      | Some err \<Rightarrow>
          if a < maxRetries p then
            (case backoff_select b of
               BackoffCtxDone \<Rightarrow> Return (Some (ContextError ctx))
             | BackoffElapsed \<Rightarrow> Continue err)
          else Continue err)"
  by (cases "publishWithConfirm b ctx p rk body")
     (simp add: Publish_confirm_def Let_def split: option.splits backoff_outcome.splits)

lemma Publish_attempt_state:
  "fst (snd (Publish_attempt b ctx rk body p a)) = connected b p"
proof (cases "isHealthy b p")
  case (Pair h t1)
  obtain e r t2 where rc: "reconnect b p = (e, r, t2)"
    by (cases "reconnect b p")
  have f: "fst (snd (Publish_confirm b ctx rk body q a t)) = q" for q t
    using Publish_confirm_frame [of b ctx rk body q a t]
    by (cases "Publish_confirm b ctx rk body q a t") simp
  from Pair rc show ?thesis
    by (cases h; cases e)
       (simp_all add: Publish_attempt_def connected_def Let_def f
          split: backoff_outcome.splits)
qed

lemma Publish_attempt_step:
  "fst (Publish_attempt b ctx rk body p a) =
     (case attempt_error b ctx rk body p of
        None \<Rightarrow> Return None
      | Some err \<Rightarrow>
          if a < maxRetries p then
            (case backoff_select b of
               BackoffCtxDone \<Rightarrow> Return (Some (ContextError ctx))
             | BackoffElapsed \<Rightarrow> Continue err)
          else Continue err)"
proof (cases "isHealthy b p")
  case (Pair h t1)
  obtain e r t2 where rc: "reconnect b p = (e, r, t2)"
    by (cases "reconnect b p")
  from reconnect_frame [OF rc] have mr: "maxRetries r = maxRetries p"
    by simp
  from Pair rc mr show ?thesis
    by (cases h; cases e)
       (simp_all add: Publish_attempt_def attempt_error_def connected_def Let_def
          Publish_confirm_step split: option.splits backoff_outcome.splits)
qed

lemma attempt_from_Suc:
  "attempt_from env ctx rk body p a (Suc j) =
     attempt_from env ctx rk body (fst (snd (Publish_attempt (env a) ctx rk body p a))) (a + 1) j"
  by (simp add: attempt_from_def add.assoc Publish_attempt_state)

lemma attempt_from_0:
  "attempt_from env ctx rk body p a 0 = fst (Publish_attempt (env a) ctx rk body p a)"
  by (simp add: attempt_from_def)

lemma Publish_loop_Return:
  "attempt \<le> maxRetries p \<Longrightarrow>
   Publish_attempt (env attempt) ctx rk body p attempt = (Return r, p', tr') \<Longrightarrow>
   Publish_loop env ctx rk body p attempt lastErr tr = (r, p', tr @ tr')"
  by (subst Publish_loop.simps) simp

lemma Publish_loop_Continue:
  "attempt \<le> maxRetries p \<Longrightarrow>
   Publish_attempt (env attempt) ctx rk body p attempt = (Continue e, p', tr') \<Longrightarrow>
   Publish_loop env ctx rk body p attempt lastErr tr =
     Publish_loop env ctx rk body p' (attempt + 1) (Some e) (tr @ tr')"
  by (subst Publish_loop.simps) simp

lemma Publish_loop_exit:
  "\<not> attempt \<le> maxRetries p \<Longrightarrow>
   Publish_loop env ctx rk body p attempt lastErr tr =
     (Some (WrapError ''failed to publish after %d attempts: %w'' [maxRetries p] lastErr), p, tr)"
  by (subst Publish_loop.simps) simp

lemma Publish_loop_returns:
  assumes "\<forall>j<n. \<exists>e. attempt_from env ctx rk body p a j = Continue e"
    and "attempt_from env ctx rk body p a n = Return r"
    and "a + int n \<le> maxRetries p"
  shows "fst (Publish_loop env ctx rk body p a lastErr tr) = r"
  using assms
proof (induction n arbitrary: p a lastErr tr)
  case 0
  obtain s p' tr' where st: "Publish_attempt (env a) ctx rk body p a = (s, p', tr')"
    by (cases "Publish_attempt (env a) ctx rk body p a")
  with "0.prems" have "s = Return r"
    by (simp add: attempt_from_0)
  with st "0.prems" show ?case
    by (simp add: Publish_loop_Return)
next
  case (Suc n)
  obtain s p' tr' where st: "Publish_attempt (env a) ctx rk body p a = (s, p', tr')"
    by (cases "Publish_attempt (env a) ctx rk body p a")
  from Suc.prems(1) obtain e where "attempt_from env ctx rk body p a 0 = Continue e"
    by blast
  with st have s: "s = Continue e"
    by (simp add: attempt_from_0)
  have mr: "maxRetries p' = maxRetries p"
    using Publish_attempt_frame [OF st] by simp
  have le: "a \<le> maxRetries p"
    using Suc.prems(3) by simp
  have "fst (Publish_loop env ctx rk body p' (a + 1) (Some e) (tr @ tr')) = r"
  proof (rule Suc.IH)
    show "\<forall>j<n. \<exists>e. attempt_from env ctx rk body p' (a + 1) j = Continue e"
      using Suc.prems(1) st by (auto simp: attempt_from_Suc dest: Suc_mono)
    show "attempt_from env ctx rk body p' (a + 1) n = Return r"
      using Suc.prems(2) st by (simp add: attempt_from_Suc)
    show "a + 1 + int n \<le> maxRetries p'"
      using Suc.prems(3) mr by simp
  qed
  with st s le show ?case
    by (simp add: Publish_loop_Continue)
qed

lemma Publish_loop_exhausted:
  assumes "\<forall>j<n. \<exists>e. attempt_from env ctx rk body p a j = Continue e"
    and "a + int n = maxRetries p + 1"
  shows "\<exists>cause.
           (if n = 0 then cause = lastErr
            else \<exists>e. attempt_from env ctx rk body p a (n - 1) = Continue e \<and> cause = Some e) \<and>
           fst (Publish_loop env ctx rk body p a lastErr tr) =
             Some (WrapError ''failed to publish after %d attempts: %w'' [maxRetries p] cause)"
  using assms
proof (induction n arbitrary: p a lastErr tr)
  case 0
  then show ?case
    by (simp add: Publish_loop_exit)
next
  case (Suc n)
  obtain s p' tr' where st: "Publish_attempt (env a) ctx rk body p a = (s, p', tr')"
    by (cases "Publish_attempt (env a) ctx rk body p a")
  from Suc.prems(1) obtain e where e: "attempt_from env ctx rk body p a 0 = Continue e"
    by blast
  with st have s: "s = Continue e"
    by (simp add: attempt_from_0)
  have mr: "maxRetries p' = maxRetries p"
    using Publish_attempt_frame [OF st] by simp
  have le: "a \<le> maxRetries p"
    using Suc.prems(2) by simp
  have step: "Publish_loop env ctx rk body p a lastErr tr =
      Publish_loop env ctx rk body p' (a + 1) (Some e) (tr @ tr')"
    using st s le by (simp add: Publish_loop_Continue)
  have hyp: "\<forall>j<n. \<exists>e. attempt_from env ctx rk body p' (a + 1) j = Continue e"
    using Suc.prems(1) st by (auto simp: attempt_from_Suc dest: Suc_mono)
  have bound: "a + 1 + int n = maxRetries p' + 1"
    using Suc.prems(2) mr by simp
  from Suc.IH [OF hyp bound, of "Some e" "tr @ tr'"] obtain cause where
    c: "if n = 0 then cause = Some e
        else \<exists>e. attempt_from env ctx rk body p' (a + 1) (n - 1) = Continue e \<and> cause = Some e"
    and r: "fst (Publish_loop env ctx rk body p' (a + 1) (Some e) (tr @ tr')) =
        Some (WrapError ''failed to publish after %d attempts: %w'' [maxRetries p'] cause)"
    by blast
  have "\<exists>e'. attempt_from env ctx rk body p a n = Continue e' \<and> cause = Some e'"
  proof (cases n)
    case 0
    with c e show ?thesis by simp
  next
    case (Suc m)
    with c st show ?thesis
      by (simp add: attempt_from_Suc)
  qed
  with r step mr show ?case
    by simp
qed

lemma Publish_loop_delays:
  assumes "\<forall>j<n. \<exists>e. attempt_from env ctx rk body p a j = Continue e"
    and "a + int n = maxRetries p + 1"
  shows "delays (snd (snd (Publish_loop env ctx rk body p a lastErr tr))) =
           delays tr @ map (backoff_delay p) [a..maxRetries p - 1]"
  using assms
proof (induction n arbitrary: p a lastErr tr)
  case 0
  then show ?case
    by (simp add: Publish_loop_exit)
next
  case (Suc n)
  obtain s p' tr' where st: "Publish_attempt (env a) ctx rk body p a = (s, p', tr')"
    by (cases "Publish_attempt (env a) ctx rk body p a")
  from Suc.prems(1) obtain e where e: "attempt_from env ctx rk body p a 0 = Continue e"
    by blast
  with st have s: "s = Continue e"
    by (simp add: attempt_from_0)
  note fr = Publish_attempt_frame [OF st]
  have le: "a \<le> maxRetries p"
    using Suc.prems(2) by simp
  have step: "Publish_loop env ctx rk body p a lastErr tr =
      Publish_loop env ctx rk body p' (a + 1) (Some e) (tr @ tr')"
    using st s le by (simp add: Publish_loop_Continue)
  have hyp: "\<forall>j<n. \<exists>e. attempt_from env ctx rk body p' (a + 1) j = Continue e"
    using Suc.prems(1) st by (auto simp: attempt_from_Suc dest: Suc_mono)
  have bound: "a + 1 + int n = maxRetries p' + 1"
    using Suc.prems(2) fr by simp
  have d: "delays tr' = (if a < maxRetries p then [backoff_delay p a] else [])"
    using Publish_attempt_delays st s by simp
  have bd: "backoff_delay p' = backoff_delay p"
    using fr by (simp add: backoff_delay_def fun_eq_iff)
  have "delays (snd (snd (Publish_loop env ctx rk body p' (a + 1) (Some e) (tr @ tr')))) =
      delays (tr @ tr') @ map (backoff_delay p') [a + 1..maxRetries p' - 1]"
    by (rule Suc.IH [OF hyp bound])
  also have "\<dots> = delays tr @ map (backoff_delay p) [a..maxRetries p - 1]"
  proof (cases "a < maxRetries p")
    case True
    then have "[a..maxRetries p - 1] = a # [a + 1..maxRetries p - 1]"
      by (simp add: upto_rec1)
    with True d bd fr show ?thesis by simp
  next
    case False
    with d bd fr show ?thesis by simp
  qed
  finally show ?case
    using step by simp
qed

lemma Publish_loop_trace:
  "\<exists>rest. snd (snd (Publish_loop env ctx rk body p a lastErr tr)) = tr @ rest"
proof (induction env ctx rk body p a lastErr tr rule: Publish_loop.induct)
  case (1 env ctx rk body p a lastErr tr)
  show ?case
  proof (cases "a \<le> maxRetries p")
    case False
    then show ?thesis by (simp add: Publish_loop_exit)
  next
    case True
    obtain s p' tr' where st: "Publish_attempt (env a) ctx rk body p a = (s, p', tr')"
      by (cases "Publish_attempt (env a) ctx rk body p a")
    show ?thesis
    proof (cases s)
      case (Return r)
      with True st show ?thesis by (simp add: Publish_loop_Return)
    next
      case (Continue e)
      from "1.IH" [OF True st [symmetric] Continue refl] obtain rest where
        "snd (snd (Publish_loop env ctx rk body p' (a + 1) (Some e) (tr @ tr'))) =
           (tr @ tr') @ rest"
        by blast
      with True st Continue show ?thesis
        by (simp add: Publish_loop_Continue)
    qed
  qed
qed

lemma backoff_delay_sint:
  "sint (backoff_delay p k) =
     signed_take_bit 63 (sint (retryBaseDelay p) * 2 ^ nat ((k - 1) mod 2 ^ 64))"
proof -
  have "backoff_delay p k =
      word_of_int (sint (retryBaseDelay p) * 2 ^ nat ((k - 1) mod 2 ^ 64))"
    by (simp add: backoff_delay_def push_bit_eq_mult)
  then have "sint (backoff_delay p k) =
      sint (word_of_int (sint (retryBaseDelay p) * 2 ^ nat ((k - 1) mod 2 ^ 64)) :: 64 word)"
    by (rule arg_cong)
  also have "\<dots> = signed_take_bit 63 (sint (retryBaseDelay p) * 2 ^ nat ((k - 1) mod 2 ^ 64))"
    by (simp only: sint_sbintrunc') simp
  finally show ?thesis .
qed

lemma backoff_delay_exact:
  assumes "1 \<le> k"
    and "- (2 ^ 63) \<le> sint (retryBaseDelay p) * 2 ^ nat (k - 1)"
    and "sint (retryBaseDelay p) * 2 ^ nat (k - 1) < 2 ^ 63"
  shows "sint (backoff_delay p k) = sint (retryBaseDelay p) * 2 ^ nat (k - 1)"
proof (cases "retryBaseDelay p = 0")
  case True
  then show ?thesis by (simp add: backoff_delay_def)
next
  case False
  then have nz: "sint (retryBaseDelay p) \<noteq> 0"
    by (simp add: signed_eq_0_iff)
  have "k - 1 < 64"
  proof (rule ccontr)
    assume "\<not> k - 1 < 64"
    then have "(2::int) ^ 64 \<le> 2 ^ nat (k - 1)"
      by (intro power_increasing) simp_all
    moreover from nz have "1 \<le> \<bar>sint (retryBaseDelay p)\<bar>" by simp
    ultimately have "1 * (2::int) ^ 64 \<le> \<bar>sint (retryBaseDelay p)\<bar> * 2 ^ nat (k - 1)"
      by (intro mult_mono) simp_all
    then have "(2::int) ^ 64 \<le> \<bar>sint (retryBaseDelay p) * 2 ^ nat (k - 1)\<bar>"
      by (simp add: abs_mult)
    with assms(2,3) show False
      by simp
  qed
  with assms(1) have "(k - 1) mod 2 ^ 64 = k - 1"
    by simp
  with assms(2,3) show ?thesis
    by (simp add: backoff_delay_sint signed_take_bit_int_eq_self)
qed

lemma publishWithConfirm_not_aggregate:
  "fst (publishWithConfirm b ctx p rk body) = Some err \<Longrightarrow>
     err \<noteq> WrapError ''failed to publish after %d attempts: %w'' ds cause"
  by (auto simp: publishWithConfirm_def Let_def
        split: option.splits confirm_outcome.splits if_splits)

lemma Error_msg_aggregate:
  "Error_msg (WrapError ''failed to publish after %d attempts: %w'' [n] (Some cause)) =
     ''failed to publish after '' @ Itoa n @ '' attempts: '' @ Error_msg cause"
  by simp

lemma Error_msg_aggregate_nil:
  "Error_msg (WrapError ''failed to publish after %d attempts: %w'' [n] None) =
     ''failed to publish after '' @ Itoa n @ '' attempts: %!w(<nil>)''"
  by simp

lemma connected_frame:
  "maxRetries (connected b p) = maxRetries p \<and>
   retryBaseDelay (connected b p) = retryBaseDelay p"
  using reconnect_frame [of b p]
  by (cases "reconnect b p") (simp add: connected_def)

lemma pub_from_frame:
  "maxRetries (pub_from env p a n) = maxRetries p \<and>
   retryBaseDelay (pub_from env p a n) = retryBaseDelay p"
  by (induction n arbitrary: p a) (simp_all add: connected_frame)

lemma pub_before_Suc: "pub_before env p (int i + 1) = pub_from env p 1 i"
  by (simp add: pub_before_def)

lemma attempt_from_step:
  "attempt_from env ctx rk body p 1 i =
     (case attempt_error (env (int i + 1)) ctx rk body (pub_before env p (int i + 1)) of
        None \<Rightarrow> Return None
      | Some err \<Rightarrow>
          if int i + 1 < maxRetries p then
            (case backoff_select (env (int i + 1)) of
               BackoffCtxDone \<Rightarrow> Return (Some (ContextError ctx))
             | BackoffElapsed \<Rightarrow> Continue err)
          else Continue err)"
proof -
  have a: "1 + int i = int i + 1"
    by simp
  show ?thesis
    unfolding attempt_from_def a Publish_attempt_step pub_before_Suc
    by (simp add: pub_from_frame split: option.splits)
qed

lemma attempts_continue_from:
  assumes "\<forall>j. 1 \<le> j \<and> j \<le> k \<longrightarrow>
      attempt_error (env j) ctx rk body (pub_before env p j) \<noteq> None \<and>
      (j < maxRetries p \<longrightarrow> backoff_select (env j) = BackoffElapsed)"
  shows "\<forall>i<nat k. \<exists>err. attempt_from env ctx rk body p 1 i = Continue err"
proof (intro allI impI)
  fix i assume "i < nat k"
  then have "1 \<le> int i + 1 \<and> int i + 1 \<le> k"
    by simp
  with assms have
    "attempt_error (env (int i + 1)) ctx rk body (pub_before env p (int i + 1)) \<noteq> None \<and>
     (int i + 1 < maxRetries p \<longrightarrow> backoff_select (env (int i + 1)) = BackoffElapsed)"
    by blast
  then show "\<exists>err. attempt_from env ctx rk body p 1 i = Continue err"
    by (auto simp: attempt_from_step)
qed

lemma attempt_error_not_aggregate:
  "attempt_error b ctx rk body p = Some err \<Longrightarrow>
     err \<noteq> WrapError ''failed to publish after %d attempts: %w'' ds cause"
  by (auto simp: attempt_error_def dest: publishWithConfirm_not_aggregate split: if_splits)

lemma attempt_error_connected:
  assumes "amqp_Dial b = Inr c" and "conn_Channel b = Inr ch" and "channel_Confirm b = None"
    and "channel_PublishWithContext b = None"
  shows "attempt_error b ctx rk body p =
     (case confirm_select b of
        Confirmation ack \<Rightarrow>
          if ack then None else Some (ErrorString ''publish not acknowledged by broker'')
      | CtxDone \<Rightarrow> Some (ContextError ctx)
      | ConfirmTimeout \<Rightarrow> Some (ErrorString ''confirmation timeout''))"
  using assms
  by (simp add: attempt_error_def connected_def publishWithConfirm_def isHealthy_def
        reconnect_def connect_def Let_def
        split: option.splits confirm_outcome.splits)

lemma attempt_error_down:
  assumes "conn_IsClosed b" and "amqp_Dial b = Inl e"
  shows "attempt_error b ctx rk body p =
     Some (WrapError ''reconnect failed: %w'' []
       (Some (WrapError ''failed to connect to RabbitMQ: %w'' [] (Some e))))"
  using assms
  by (simp add: attempt_error_def isHealthy_def reconnect_def connect_def Let_def
        split: option.splits)

lemma failures_isHealthy [simp]: "filter failure_log (snd (isHealthy b p)) = []"
  by (simp add: isHealthy_def split: option.splits)

lemma failures_reconnect [simp]: "filter failure_log (snd (snd (reconnect b p))) = []"
  by (simp add: reconnect_def connect_def Let_def split: prod.splits sum.splits option.splits)

lemma failures_publishWithConfirm [simp]:
  "filter failure_log (snd (publishWithConfirm b ctx p rk body)) = []"
  by (simp add: publishWithConfirm_def Let_def split: option.splits confirm_outcome.splits)

lemma isHealthy_trace: "snd (isHealthy b p) = Lock # tl (snd (isHealthy b p))"
  by (simp add: isHealthy_def split: option.splits)

lemma Publish_confirm_trace:
  "\<exists>t'. snd (snd (Publish_confirm b ctx rk body p a t)) = t @ t'"
  by (cases "publishWithConfirm b ctx p rk body")
     (simp add: Publish_confirm_def Let_def split: option.splits backoff_outcome.splits)

lemma Publish_attempt_hd:
  "\<exists>t. snd (snd (Publish_attempt b ctx rk body q a)) = Lock # t"
proof (cases "isHealthy b q")
  case (Pair h t1)
  obtain e r t2 where rc: "reconnect b q = (e, r, t2)"
    by (cases "reconnect b q")
  from isHealthy_trace [of b q] Pair have t1: "t1 = Lock # tl t1"
    by simp
  have "\<exists>t'. snd (snd (Publish_attempt b ctx rk body q a)) = t1 @ t'"
    using Pair rc Publish_confirm_trace [of b ctx rk body q a t1]
      Publish_confirm_trace [of b ctx rk body r a
        "t1 @ [Log WarnLevel ''Connection unhealthy, attempting reconnect''] @ t2"]
    by (cases h; cases e)
       (auto simp: Publish_attempt_def Let_def split: backoff_outcome.splits)
  then obtain t' where "snd (snd (Publish_attempt b ctx rk body q a)) = t1 @ t'"
    by blast
  with t1 have "snd (snd (Publish_attempt b ctx rk body q a)) = Lock # (tl t1 @ t')"
    by (metis append_Cons)
  then show ?thesis
    by blast
qed

lemma Publish_confirm_failed_trace:
  "fst (publishWithConfirm b ctx p rk body) = Some err \<Longrightarrow>
     snd (snd (Publish_confirm b ctx rk body p a t)) =
       t @ snd (publishWithConfirm b ctx p rk body) @
       Log WarnLevel ''Publish attempt failed'' #
       (if a < maxRetries p then [BackoffWait (backoff_delay p a)] else [])"
  by (cases "publishWithConfirm b ctx p rk body")
     (simp add: Publish_confirm_def Let_def split: backoff_outcome.splits)

lemma Publish_attempt_failed_trace:
  assumes "attempt_error b ctx rk body q = Some err"
  shows "\<exists>work flog.
           snd (snd (Publish_attempt b ctx rk body q a)) =
             Lock # work @ flog #
               (if a < maxRetries q then [BackoffWait (backoff_delay q a)] else []) \<and>
           failure_log flog \<and> delays work = [] \<and> filter failure_log work = []"
proof (cases "isHealthy b q")
  case (Pair h t1)
  obtain e r t2 where rc: "reconnect b q = (e, r, t2)"
    by (cases "reconnect b q")
  from reconnect_frame [OF rc] have fr: "maxRetries r = maxRetries q"
    "backoff_delay r a = backoff_delay q a"
    by (simp_all add: backoff_delay_def)
  from isHealthy_trace [of b q] Pair have t1: "t1 = Lock # tl t1"
    by simp
  have d1: "delays (tl t1) = []" "filter failure_log (tl t1) = []"
    using delays_isHealthy [of b q] failures_isHealthy [of b q] Pair t1
    by (metis delays.simps(3) snd_conv, metis failure_log.simps(2) filter.simps(2) snd_conv)
  have d2: "delays t2 = []" "filter failure_log t2 = []"
    using delays_reconnect [of b q] failures_reconnect [of b q] rc by simp_all
  show ?thesis
  proof (cases h)
    case True
    with assms Pair have pe: "fst (publishWithConfirm b ctx q rk body) = Some err"
      by (simp add: attempt_error_def connected_def)
    let ?work = "tl t1 @ snd (publishWithConfirm b ctx q rk body)"
    have "snd (snd (Publish_attempt b ctx rk body q a)) =
        Lock # ?work @ Log WarnLevel ''Publish attempt failed'' #
          (if a < maxRetries q then [BackoffWait (backoff_delay q a)] else [])"
      using Pair True t1 Publish_confirm_failed_trace [OF pe, of a t1]
      by (simp add: Publish_attempt_def)
    moreover have "delays ?work = []" "filter failure_log ?work = []"
      using d1 by simp_all
    ultimately show ?thesis
      by (intro exI [of _ ?work] exI [of _ "Log WarnLevel ''Publish attempt failed''"]) simp
  next
    case False
    show ?thesis
    proof (cases e)
      case (Some cerr)
      let ?work = "tl t1 @ [Log WarnLevel ''Connection unhealthy, attempting reconnect''] @ t2"
      have "snd (snd (Publish_attempt b ctx rk body q a)) =
          Lock # ?work @ Log ErrorLevel ''Reconnection failed'' #
            (if a < maxRetries q then [BackoffWait (backoff_delay q a)] else [])"
        using Pair False rc Some fr t1
        by (simp add: Publish_attempt_def Let_def split: backoff_outcome.splits)
      moreover have "delays ?work = []" "filter failure_log ?work = []"
        using d1 d2 by simp_all
      ultimately show ?thesis
        by (intro exI [of _ ?work] exI [of _ "Log ErrorLevel ''Reconnection failed''"]) simp
    next
      case None
      with assms Pair False rc have pe: "fst (publishWithConfirm b ctx r rk body) = Some err"
        by (simp add: attempt_error_def connected_def)
      let ?work = "tl t1 @ [Log WarnLevel ''Connection unhealthy, attempting reconnect''] @ t2
          @ snd (publishWithConfirm b ctx r rk body)"
      have "snd (snd (Publish_attempt b ctx rk body q a)) =
          Lock # ?work @ Log WarnLevel ''Publish attempt failed'' #
            (if a < maxRetries q then [BackoffWait (backoff_delay q a)] else [])"
        using Pair False rc None fr t1
          Publish_confirm_failed_trace [OF pe, of a
            "t1 @ [Log WarnLevel ''Connection unhealthy, attempting reconnect''] @ t2"]
        by (simp add: Publish_attempt_def)
      moreover have "delays ?work = []" "filter failure_log ?work = []"
        using d1 d2 by simp_all
      ultimately show ?thesis
        by (intro exI [of _ ?work] exI [of _ "Log WarnLevel ''Publish attempt failed''"]) simp
    qed
  qed
qed

lemma pub_from_snoc:
  "pub_from env p a (Suc n) = connected (env (a + int n)) (pub_from env p a n)"
proof (induction n arbitrary: p a)
  case 0
  show ?case by simp
next
  case (Suc n)
  have "pub_from env p a (Suc (Suc n)) =
      pub_from env (connected (env a) p) (a + 1) (Suc n)"
    by (rule pub_from.simps(2))
  also have "\<dots> = connected (env (a + 1 + int n))
      (pub_from env (connected (env a) p) (a + 1) n)"
    by (rule Suc.IH)
  also have "pub_from env (connected (env a) p) (a + 1) n = pub_from env p a (Suc n)"
    by (rule pub_from.simps(2) [symmetric])
  also have "a + 1 + int n = a + int (Suc n)"
    by simp
  finally show ?case .
qed

lemma trace_from_snoc:
  "trace_from env ctx rk body p a (Suc n) =
     trace_from env ctx rk body p a n @
     snd (snd (Publish_attempt (env (a + int n)) ctx rk body (pub_from env p a n) (a + int n)))"
proof (induction n arbitrary: p a)
  case 0
  show ?case by simp
next
  case (Suc n)
  let ?p' = "connected (env a) p"
  let ?t = "snd (snd (Publish_attempt (env a) ctx rk body p a))"
  have "trace_from env ctx rk body p a (Suc (Suc n)) =
      ?t @ trace_from env ctx rk body ?p' (a + 1) (Suc n)"
    by (rule trace_from.simps(2))
  also have "trace_from env ctx rk body ?p' (a + 1) (Suc n) =
      trace_from env ctx rk body ?p' (a + 1) n @
      snd (snd (Publish_attempt (env (a + 1 + int n)) ctx rk body
        (pub_from env ?p' (a + 1) n) (a + 1 + int n)))"
    by (rule Suc.IH)
  also have "pub_from env ?p' (a + 1) n = pub_from env p a (Suc n)"
    by (rule pub_from.simps(2) [symmetric])
  also have "a + 1 + int n = a + int (Suc n)"
    by simp
  finally have "trace_from env ctx rk body p a (Suc (Suc n)) =
      (?t @ trace_from env ctx rk body ?p' (a + 1) n) @
      snd (snd (Publish_attempt (env (a + int (Suc n))) ctx rk body
        (pub_from env p a (Suc n)) (a + int (Suc n))))"
    by simp
  also have "?t @ trace_from env ctx rk body ?p' (a + 1) n =
      trace_from env ctx rk body p a (Suc n)"
    by (rule trace_from.simps(2) [symmetric])
  finally show ?case .
qed

lemma Publish_loop_skip:
  assumes "\<forall>j<n. \<exists>e. attempt_from env ctx rk body p a j = Continue e"
    and "a + int n \<le> maxRetries p + 1"
  shows "\<exists>le. Publish_loop env ctx rk body p a lastErr tr =
           Publish_loop env ctx rk body (pub_from env p a n) (a + int n) le
             (tr @ trace_from env ctx rk body p a n)"
  using assms
proof (induction n arbitrary: p a lastErr tr)
  case 0
  then show ?case by auto
next
  case (Suc n)
  obtain s p' tr' where st: "Publish_attempt (env a) ctx rk body p a = (s, p', tr')"
    by (cases "Publish_attempt (env a) ctx rk body p a")
  from Suc.prems(1) obtain e where e: "attempt_from env ctx rk body p a 0 = Continue e"
    by blast
  with st have s: "s = Continue e"
    by (simp add: attempt_from_0)
  note fr = Publish_attempt_frame [OF st]
  have p': "p' = connected (env a) p"
    using Publish_attempt_state [of "env a" ctx rk body p a] st by simp
  have le: "a \<le> maxRetries p"
    using Suc.prems(2) by simp
  have step: "Publish_loop env ctx rk body p a lastErr tr =
      Publish_loop env ctx rk body p' (a + 1) (Some e) (tr @ tr')"
    using st s le by (simp add: Publish_loop_Continue)
  have hyp: "\<forall>j<n. \<exists>e. attempt_from env ctx rk body p' (a + 1) j = Continue e"
    using Suc.prems(1) st by (auto simp: attempt_from_Suc dest: Suc_mono)
  have bound: "a + 1 + int n \<le> maxRetries p' + 1"
    using Suc.prems(2) fr by simp
  from Suc.IH [OF hyp bound, of "Some e" "tr @ tr'"] obtain le' where
    "Publish_loop env ctx rk body p' (a + 1) (Some e) (tr @ tr') =
       Publish_loop env ctx rk body (pub_from env p' (a + 1) n) (a + 1 + int n) le'
         ((tr @ tr') @ trace_from env ctx rk body p' (a + 1) n)"
    by blast
  with step p' st show ?case
    by (auto simp: add.assoc)
qed

lemma Publish_loop_hd:
  assumes "a \<le> maxRetries p"
  shows "\<exists>rest. snd (snd (Publish_loop env ctx rk body p a lastErr tr)) = tr @ Lock # rest"
proof -
  obtain s p' tr' where st: "Publish_attempt (env a) ctx rk body p a = (s, p', tr')"
    by (cases "Publish_attempt (env a) ctx rk body p a")
  from Publish_attempt_hd [of "env a" ctx rk body p a] st obtain t where t: "tr' = Lock # t"
    by auto
  show ?thesis
  proof (cases s)
    case (Return r)
    with assms st t show ?thesis
      by (simp add: Publish_loop_Return)
  next
    case (Continue e)
    from Publish_loop_trace [of env ctx rk body p' "a + 1" "Some e" "tr @ tr'"]
    obtain rest where
      "snd (snd (Publish_loop env ctx rk body p' (a + 1) (Some e) (tr @ tr'))) =
         (tr @ tr') @ rest"
      by blast
    with assms st t Continue show ?thesis
      by (simp add: Publish_loop_Continue)
  qed
qed

lemma delays_failure_log: "failure_log e \<Longrightarrow> delays (e # es) = delays es"
  by (cases e) simp_all

lemma upto_snoc: "i \<le> j \<Longrightarrow> [i..j] = [i..j - 1] @ [j]"
  by (simp add: upto_rec2)

lemma trace_from_failed:
  assumes "\<forall>j. 1 \<le> j \<and> j \<le> int n \<longrightarrow>
      attempt_error (env j) ctx rk body (pub_before env p j) \<noteq> None"
    and "int n < maxRetries p"
  shows "delays (trace_from env ctx rk body p 1 n) = map (backoff_delay p) [1..int n] \<and>
         length (filter failure_log (trace_from env ctx rk body p 1 n)) = n \<and>
         (0 < n \<longrightarrow>
            (\<exists>pre. trace_from env ctx rk body p 1 n =
                     pre @ [BackoffWait (backoff_delay p (int n))] \<and>
                   pre \<noteq> [] \<and> failure_log (last pre)))"
  using assms
proof (induction n)
  case 0
  then show ?case by simp
next
  case (Suc n)
  let ?q = "pub_from env p 1 n"
  let ?a = "1 + int n"
  from Suc.prems have IH:
    "delays (trace_from env ctx rk body p 1 n) = map (backoff_delay p) [1..int n]"
    "length (filter failure_log (trace_from env ctx rk body p 1 n)) = n"
    using Suc.IH by simp_all
  have "?a = int (Suc n)" by simp
  have q: "pub_before env p ?a = ?q"
    by (simp add: pub_before_def)
  from Suc.prems(1) have "attempt_error (env ?a) ctx rk body (pub_before env p ?a) \<noteq> None"
    by simp
  then obtain err where err: "attempt_error (env ?a) ctx rk body ?q = Some err"
    using q by auto
  have fr: "maxRetries ?q = maxRetries p" "backoff_delay ?q ?a = backoff_delay p ?a"
    using pub_from_frame [of env p 1 n] by (simp_all add: backoff_delay_def)
  have lt: "?a < maxRetries ?q"
    using Suc.prems(2) fr by simp
  from Publish_attempt_failed_trace [OF err, of ?a] lt fr obtain work flog where
    seg: "snd (snd (Publish_attempt (env ?a) ctx rk body ?q ?a)) =
        Lock # work @ [flog, BackoffWait (backoff_delay p ?a)]"
    and w: "failure_log flog" "delays work = []" "filter failure_log work = []"
    by auto
  have T: "trace_from env ctx rk body p 1 (Suc n) =
      trace_from env ctx rk body p 1 n @ Lock # work @ [flog, BackoffWait (backoff_delay p ?a)]"
    unfolding trace_from_snoc seg by (rule refl)
  have u: "[1..int (Suc n)] = [1..int n] @ [?a]"
    using upto_snoc [of 1 "int (Suc n)"] by (simp add: add.commute)
  have 1: "delays (trace_from env ctx rk body p 1 (Suc n)) =
      map (backoff_delay p) [1..int (Suc n)]"
    unfolding T u using IH(1) w by (simp add: delays_failure_log)
  have 2: "length (filter failure_log (trace_from env ctx rk body p 1 (Suc n))) = Suc n"
    unfolding T using IH(2) w by simp
  have 3: "trace_from env ctx rk body p 1 (Suc n) =
      (trace_from env ctx rk body p 1 n @ Lock # work @ [flog])
        @ [BackoffWait (backoff_delay p (int (Suc n)))]"
    unfolding T by (simp add: add.commute)
  have 4: "failure_log (last (trace_from env ctx rk body p 1 n @ Lock # work @ [flog]))"
    using w(1) by simp
  from 1 2 3 4 show ?case
    by blast
qed

lemma waited_backoff_delay:
  assumes "1 \<le> k" and "0 \<le> sint (retryBaseDelay p)"
    and "sint (retryBaseDelay p) * 2 ^ nat (k - 1) < 2 ^ 63"
  shows "waited (backoff_delay p k) = sint (retryBaseDelay p) * 2 ^ nat (k - 1)"
proof -
  have "0 \<le> sint (retryBaseDelay p) * 2 ^ nat (k - 1)"
    using assms(2) by simp
  then have "- (2 ^ 63) \<le> sint (retryBaseDelay p) * 2 ^ nat (k - 1)"
    by simp
  from backoff_delay_exact [OF assms(1) this assms(3)]
    \<open>0 \<le> sint (retryBaseDelay p) * 2 ^ nat (k - 1)\<close>
  show ?thesis
    by (simp add: waited_def)
qed

lemma attempt_from_nack:
  "attempt_from (\<lambda>k. broker_nack) ctx rk body p a i =
     Continue (ErrorString ''publish not acknowledged by broker'')"
  by (simp add: attempt_from_def Publish_attempt_step
        attempt_error_connected [where c = 4 and ch = 5] broker_nack_def broker_ack_def)

lemma attempt_error_nack:
  "attempt_error broker_nack ctx rk body q =
     Some (ErrorString ''publish not acknowledged by broker'')"
  by (simp add: attempt_error_connected [where c = 4 and ch = 5] broker_nack_def
        broker_ack_def)

lemma NewPublisher_publisher_neg:
  "NewPublisher (broker_ack\<lparr>amqp_Dial := Inr 1, conn_Channel := Inr 2,
       channel_NotifyPublish := 3\<rparr>)
     ''amqps://broker'' ''energy-metering.ingest.exchange'' 3 (- 100) 5 = Inr publisher_neg"
  by (simp add: NewPublisher_def connect_def Let_def broker_ack_def publisher_def
        publisher_neg_def)

subsection \<open>Eventual success\<close>

text \<open>
  Claim C1. Let the message serialise and let \<open>k\<close> be an attempt within the budget
  (\<open>1 \<le> k \<le> maxRetries\<close>). Suppose that in every attempt before \<open>k\<close> the reconnect
  that precedes it or \<open>publishWithConfirm\<close> returns an error (a failed dial, channel
  open or confirm mode, a failed submission, a nack, a confirmation timeout) and the
  backoff wait that follows runs to its end, and that in attempt \<open>k\<close> neither call
  returns an error. Then \<open>Publish\<close> returns nil.
\<close>

theorem Publish_eventual_success:
  assumes "json_Marshal message = Inr body"
    and "1 \<le> k" and "k \<le> maxRetries p"
    and "\<forall>j. 1 \<le> j \<and> j < k \<longrightarrow>
           attempt_error (env j) ctx routingKey body (pub_before env p j) \<noteq> None \<and>
           backoff_select (env j) = BackoffElapsed"
    and "attempt_error (env k) ctx routingKey body (pub_before env p k) = None"
  shows "fst (Publish json_Marshal env ctx p routingKey message) = None"
proof -
  from assms(4) have
    "\<forall>j. 1 \<le> j \<and> j \<le> k - 1 \<longrightarrow>
       attempt_error (env j) ctx routingKey body (pub_before env p j) \<noteq> None \<and>
       (j < maxRetries p \<longrightarrow> backoff_select (env j) = BackoffElapsed)"
    by simp
  then have c: "\<forall>i<nat (k - 1). \<exists>err. attempt_from env ctx routingKey body p 1 i = Continue err"
    by (rule attempts_continue_from)
  have "int (nat (k - 1)) + 1 = k"
    using assms(2) by simp
  with assms(5) have r: "attempt_from env ctx routingKey body p 1 (nat (k - 1)) = Return None"
    by (simp add: attempt_from_step)
  have b: "1 + int (nat (k - 1)) \<le> maxRetries p"
    using assms(2,3) by simp
  from Publish_loop_returns [OF c r b] assms(1) show ?thesis
    by (simp add: Publish_def)
qed

theorem Publish_eventual_success_witness:
  "fst (Publish marshal
          (\<lambda>k. if k = 1 then broker_down
               else if k = 2 then broker_nack\<lparr>conn_IsClosed := True\<rparr> else broker_ack)
          Canceled (publisher 3) ''meter.reading.ingested'' [123, 125]) = None"
proof -
  let ?env = "\<lambda>k::int. if k = 1 then broker_down
               else if k = 2 then broker_nack\<lparr>conn_IsClosed := True\<rparr> else broker_ack"
  have 1: "attempt_error (?env 1) Canceled ''meter.reading.ingested'' [123, 125] q \<noteq> None \<and>
      backoff_select (?env 1) = BackoffElapsed" for q
    by (simp add: attempt_error_down broker_down_def broker_ack_def)
  have 2: "attempt_error (?env 2) Canceled ''meter.reading.ingested'' [123, 125] q \<noteq> None \<and>
      backoff_select (?env 2) = BackoffElapsed" for q
    by (simp add: attempt_error_connected [where c = 4 and ch = 5] broker_nack_def
          broker_ack_def)
  have 3: "attempt_error (?env 3) Canceled ''meter.reading.ingested'' [123, 125] q = None"
    for q
    by (simp add: attempt_error_connected [where c = 4 and ch = 5] broker_ack_def)
  have "\<forall>j. 1 \<le> j \<and> j < 3 \<longrightarrow>
      attempt_error (?env j) Canceled ''meter.reading.ingested'' [123, 125]
        (pub_before ?env (publisher 3) j) \<noteq> None \<and>
      backoff_select (?env j) = BackoffElapsed"
  proof (intro allI impI)
    fix j :: int assume "1 \<le> j \<and> j < 3"
    then have "j = 1 \<or> j = 2" by arith
    with 1 2 show "attempt_error (?env j) Canceled ''meter.reading.ingested'' [123, 125]
        (pub_before ?env (publisher 3) j) \<noteq> None \<and>
      backoff_select (?env j) = BackoffElapsed"
      by blast
  qed
  with 3 [of "pub_before ?env (publisher 3) 3"] show ?thesis
    using Publish_eventual_success [of marshal "[123, 125]" "[123, 125]" 3 "publisher 3" ?env
        Canceled "''meter.reading.ingested''"]
    by (simp add: marshal_def publisher_def)
qed

subsection \<open>Exhaustion\<close>

text \<open>
  Claim C2. Let the message serialise and \<open>maxRetries = N \<ge> 1\<close>. Suppose that in each
  of the \<open>N\<close> attempts the reconnect that precedes it or \<open>publishWithConfirm\<close> returns
  an error, and that no backoff wait is cut short by the context. Then \<open>Publish\<close>
  returns one aggregate error: it is built from the format
  \<open>failed to publish after %d attempts: %w\<close> with \<open>N\<close> for \<open>%d\<close>, it wraps the error
  of attempt \<open>N\<close>, its message reads \<open>failed to publish after N attempts: \<close> followed
  by the message of that error, and it is not the error of any single attempt.
\<close>

theorem Publish_exhausted:
  assumes "json_Marshal message = Inr body"
    and "1 \<le> maxRetries p"
    and "\<forall>j. 1 \<le> j \<and> j \<le> maxRetries p \<longrightarrow>
           attempt_error (env j) ctx routingKey body (pub_before env p j) \<noteq> None \<and>
           (j < maxRetries p \<longrightarrow> backoff_select (env j) = BackoffElapsed)"
  shows "\<exists>agg cause.
           fst (Publish json_Marshal env ctx p routingKey message) = Some agg \<and>
           attempt_error (env (maxRetries p)) ctx routingKey body
             (pub_before env p (maxRetries p)) = Some cause \<and>
           agg = WrapError ''failed to publish after %d attempts: %w'' [maxRetries p]
                   (Some cause) \<and>
           Unwrap agg = Some cause \<and>
           Error_msg agg =
             ''failed to publish after '' @ Itoa (maxRetries p) @ '' attempts: ''
               @ Error_msg cause \<and>
           (\<forall>j. attempt_error (env j) ctx routingKey body (pub_before env p j) \<noteq> Some agg)"
proof -
  from assms(3) have
    c: "\<forall>i<nat (maxRetries p). \<exists>err. attempt_from env ctx routingKey body p 1 i = Continue err"
    by (rule attempts_continue_from)
  have b: "1 + int (nat (maxRetries p)) = maxRetries p + 1"
    using assms(2) by simp
  have n: "nat (maxRetries p) \<noteq> 0"
    using assms(2) by simp
  from Publish_loop_exhausted [OF c b, of None "[]"] n obtain cause where
    cause: "attempt_from env ctx routingKey body p 1 (nat (maxRetries p) - 1) = Continue cause"
    and res: "fst (Publish_loop env ctx routingKey body p 1 None []) =
      Some (WrapError ''failed to publish after %d attempts: %w'' [maxRetries p] (Some cause))"
    by auto
  have "int (nat (maxRetries p) - 1) + 1 = maxRetries p"
    using assms(2) by simp
  with cause have last: "attempt_error (env (maxRetries p)) ctx routingKey body
      (pub_before env p (maxRetries p)) = Some cause"
    by (simp add: attempt_from_step split: option.splits)
  have "\<forall>j. attempt_error (env j) ctx routingKey body (pub_before env p j) \<noteq>
      Some (WrapError ''failed to publish after %d attempts: %w'' [maxRetries p] (Some cause))"
    using attempt_error_not_aggregate by blast
  with res last assms(1) show ?thesis
    by (simp add: Publish_def)
qed

theorem Publish_exhausted_witness:
  "fst (Publish marshal (\<lambda>k. broker_timeout) Canceled (publisher 3)
          ''meter.reading.ingested'' [123, 125]) =
     Some (WrapError ''failed to publish after %d attempts: %w'' [3]
             (Some (ErrorString ''confirmation timeout''))) \<and>
   Error_msg (WrapError ''failed to publish after %d attempts: %w'' [3]
             (Some (ErrorString ''confirmation timeout''))) =
     ''failed to publish after 3 attempts: confirmation timeout''"
proof -
  have a: "attempt_error broker_timeout Canceled ''meter.reading.ingested'' [123, 125] q =
      Some (ErrorString ''confirmation timeout'')" for q
    by (simp add: attempt_error_connected [where c = 4 and ch = 5] broker_timeout_def
          broker_ack_def)
  have m: "maxRetries (publisher 3) = 3"
    by (simp add: publisher_def)
  have e: "backoff_select broker_timeout = BackoffElapsed"
    by (simp add: broker_timeout_def broker_ack_def)
  from Publish_exhausted [of marshal "[123, 125]" "[123, 125]" "publisher 3"
      "\<lambda>k. broker_timeout" Canceled "''meter.reading.ingested''"]
  show ?thesis
    by (simp add: a m e marshal_def Itoa_def digits.simps)
qed

subsection \<open>Backoff delays\<close>

text \<open>
  Claim C3, as amended. Let the message serialise and \<open>1 \<le> k < maxRetries\<close>, and
  suppose that in each of the attempts 1 to \<open>k\<close> the reconnect or
  \<open>publishWithConfirm\<close> returns an error and the backoff wait runs to its end. Then
  the trace of the call reads: the events up to the log line that reports the
  failure of attempt \<open>k\<close> (the \<open>k\<close>-th such line, after \<open>k - 1\<close> earlier waits), then
  the wait on \<open>time.After (backoff_delay p k)\<close>, then the health check that opens
  attempt \<open>k + 1\<close>. When the base delay is not negative and
  \<open>retryBaseDelay * 2 ^ (k - 1)\<close> fits in a signed 64-bit duration, the time waited
  is \<open>retryBaseDelay * 2 ^ (k - 1)\<close>. If the remaining attempts fail too, the call
  waits \<open>maxRetries - 1\<close> times in all and its trace ends with the log line of the
  last failure; and the attempt numbered \<open>maxRetries\<close> waits for no delay, however it
  ends.
\<close>

theorem Publish_backoff_delays:
  assumes "json_Marshal message = Inr body"
    and "1 \<le> k" and "k < maxRetries p"
    and "\<forall>j. 1 \<le> j \<and> j \<le> k \<longrightarrow>
           attempt_error (env j) ctx routingKey body (pub_before env p j) \<noteq> None \<and>
           backoff_select (env j) = BackoffElapsed"
  shows "(\<exists>pre rest.
            snd (snd (Publish json_Marshal env ctx p routingKey message)) =
              pre @ BackoffWait (backoff_delay p k) # Lock # rest \<and>
            failure_log (last pre) \<and>
            length (filter failure_log pre) = nat k \<and>
            delays pre = map (backoff_delay p) [1..k - 1]) \<and>
         (0 \<le> sint (retryBaseDelay p) \<and>
          sint (retryBaseDelay p) * 2 ^ nat (k - 1) < 2 ^ 63 \<longrightarrow>
            waited (backoff_delay p k) = sint (retryBaseDelay p) * 2 ^ nat (k - 1)) \<and>
         ((\<forall>j. k < j \<and> j \<le> maxRetries p \<longrightarrow>
             attempt_error (env j) ctx routingKey body (pub_before env p j) \<noteq> None \<and>
             (j < maxRetries p \<longrightarrow> backoff_select (env j) = BackoffElapsed)) \<longrightarrow>
            delays (snd (snd (Publish json_Marshal env ctx p routingKey message))) =
              map (backoff_delay p) [1..maxRetries p - 1] \<and>
            failure_log (last (snd (snd (Publish json_Marshal env ctx p routingKey message))))) \<and>
         delays (snd (snd (Publish_attempt b ctx routingKey body q (maxRetries q)))) = []"
proof (intro conjI impI)
  let ?T = "trace_from env ctx routingKey body p 1 (nat k)"
  from assms(4) have h:
    "\<forall>j. 1 \<le> j \<and> j \<le> k \<longrightarrow>
       attempt_error (env j) ctx routingKey body (pub_before env p j) \<noteq> None \<and>
       (j < maxRetries p \<longrightarrow> backoff_select (env j) = BackoffElapsed)"
    by simp
  then have
    c: "\<forall>i<nat k. \<exists>err. attempt_from env ctx routingKey body p 1 i = Continue err"
    by (rule attempts_continue_from)
  have b: "1 + int (nat k) \<le> maxRetries p + 1"
    using assms(2,3) by simp
  from Publish_loop_skip [OF c b, of None "[]"] obtain le where
    skip: "Publish_loop env ctx routingKey body p 1 None [] =
      Publish_loop env ctx routingKey body (pub_from env p 1 (nat k)) (1 + int (nat k)) le ?T"
    by auto
  have "1 + int (nat k) \<le> maxRetries (pub_from env p 1 (nat k))"
    using assms(2,3) pub_from_frame [of env p 1 "nat k"] by simp
  from Publish_loop_hd [OF this, of env ctx routingKey body le ?T] skip obtain rest where
    tr: "snd (snd (Publish_loop env ctx routingKey body p 1 None [])) = ?T @ Lock # rest"
    by auto
  have f: "\<forall>j. 1 \<le> j \<and> j \<le> int (nat k) \<longrightarrow>
      attempt_error (env j) ctx routingKey body (pub_before env p j) \<noteq> None"
    using assms(2,4) by simp
  have lt: "int (nat k) < maxRetries p"
    using assms(2,3) by simp
  have k: "int (nat k) = k" "0 < nat k"
    using assms(2) by simp_all
  from trace_from_failed [OF f lt] k obtain pre where
    d: "delays ?T = map (backoff_delay p) [1..k]"
    and n: "length (filter failure_log ?T) = nat k"
    and T: "?T = pre @ [BackoffWait (backoff_delay p k)]"
    and pre: "failure_log (last pre)"
    by auto
  have "[1..k] = [1..k - 1] @ [k]"
    using assms(2) by (rule upto_snoc)
  with d T have dp: "delays pre = map (backoff_delay p) [1..k - 1]"
    by simp
  from n T have np: "length (filter failure_log pre) = nat k"
    by simp
  from tr T assms(1) have
    "snd (snd (Publish json_Marshal env ctx p routingKey message)) =
       pre @ BackoffWait (backoff_delay p k) # Lock # rest"
    by (simp add: Publish_def)
  with pre np dp show "\<exists>pre rest.
      snd (snd (Publish json_Marshal env ctx p routingKey message)) =
        pre @ BackoffWait (backoff_delay p k) # Lock # rest \<and>
      failure_log (last pre) \<and>
      length (filter failure_log pre) = nat k \<and>
      delays pre = map (backoff_delay p) [1..k - 1]"
    by blast
next
  assume "0 \<le> sint (retryBaseDelay p) \<and> sint (retryBaseDelay p) * 2 ^ nat (k - 1) < 2 ^ 63"
  with assms(2) show "waited (backoff_delay p k) = sint (retryBaseDelay p) * 2 ^ nat (k - 1)"
    by (simp add: waited_backoff_delay)
next
  assume rest: "\<forall>j. k < j \<and> j \<le> maxRetries p \<longrightarrow>
      attempt_error (env j) ctx routingKey body (pub_before env p j) \<noteq> None \<and>
      (j < maxRetries p \<longrightarrow> backoff_select (env j) = BackoffElapsed)"
  have all: "\<forall>j. 1 \<le> j \<and> j \<le> maxRetries p \<longrightarrow>
      attempt_error (env j) ctx routingKey body (pub_before env p j) \<noteq> None \<and>
      (j < maxRetries p \<longrightarrow> backoff_select (env j) = BackoffElapsed)"
  proof (intro allI impI)
    fix j assume j: "1 \<le> j \<and> j \<le> maxRetries p"
    show "attempt_error (env j) ctx routingKey body (pub_before env p j) \<noteq> None \<and>
      (j < maxRetries p \<longrightarrow> backoff_select (env j) = BackoffElapsed)"
    proof (cases "j \<le> k")
      case True
      with j assms(4) show ?thesis by blast
    next
      case False
      with j rest show ?thesis by simp
    qed
  qed
  then have
    c: "\<forall>i<nat (maxRetries p). \<exists>err. attempt_from env ctx routingKey body p 1 i = Continue err"
    by (rule attempts_continue_from)
  have b: "1 + int (nat (maxRetries p)) = maxRetries p + 1"
    using assms(2,3) by simp
  from Publish_loop_delays [OF c b, of None "[]"] assms(1)
  show "delays (snd (snd (Publish json_Marshal env ctx p routingKey message))) =
      map (backoff_delay p) [1..maxRetries p - 1]"
    by (simp add: Publish_def)
  obtain m where m: "nat (maxRetries p) = Suc m"
    using assms(2,3) by (cases "nat (maxRetries p)") simp_all
  let ?q = "pub_from env p 1 m"
  let ?a = "1 + int m"
  have a: "?a = maxRetries p"
    using m by linarith
  have b': "1 + int (nat (maxRetries p)) \<le> maxRetries p + 1"
    using b by simp
  from Publish_loop_skip [OF c b', of None "[]"] obtain le where
    "Publish_loop env ctx routingKey body p 1 None [] =
      Publish_loop env ctx routingKey body (pub_from env p 1 (nat (maxRetries p)))
        (1 + int (nat (maxRetries p))) le
        (trace_from env ctx routingKey body p 1 (nat (maxRetries p)))"
    by auto
  moreover have "\<not> 1 + int (nat (maxRetries p)) \<le>
      maxRetries (pub_from env p 1 (nat (maxRetries p)))"
    using b pub_from_frame [of env p 1 "nat (maxRetries p)"] by simp
  ultimately have tr: "snd (snd (Publish_loop env ctx routingKey body p 1 None [])) =
      trace_from env ctx routingKey body p 1 (Suc m)"
    using m by (simp add: Publish_loop_exit)
  have "pub_before env p ?a = ?q"
    by (simp add: pub_before_def)
  moreover from all a have
    "attempt_error (env ?a) ctx routingKey body (pub_before env p ?a) \<noteq> None"
    using assms(2,3) by simp
  ultimately obtain err where err: "attempt_error (env ?a) ctx routingKey body ?q = Some err"
    by auto
  have "\<not> ?a < maxRetries ?q"
    using a pub_from_frame [of env p 1 m] by simp
  with Publish_attempt_failed_trace [OF err, of ?a] obtain work flog where
    "snd (snd (Publish_attempt (env ?a) ctx routingKey body ?q ?a)) = Lock # work @ [flog]"
    and "failure_log flog"
    by auto
  then have "failure_log (last (trace_from env ctx routingKey body p 1 (Suc m)))"
    unfolding trace_from_snoc by simp
  with tr assms(1)
  show "failure_log (last (snd (snd (Publish json_Marshal env ctx p routingKey message))))"
    by (simp add: Publish_def)
next
  show "delays (snd (snd (Publish_attempt b ctx routingKey body q (maxRetries q)))) = []"
    by (simp add: Publish_attempt_final_delays)
qed

theorem Publish_backoff_delays_witness:
  "delays (snd (snd (Publish marshal (\<lambda>k. broker_nack) Canceled (publisher 3)
       ''meter.reading.ingested'' [123, 125]))) = [100000000, 200000000] \<and>
   waited (backoff_delay (publisher 3) 2) = 200000000 \<and>
   failure_log (last (snd (snd (Publish marshal (\<lambda>k. broker_nack) Canceled (publisher 3)
       ''meter.reading.ingested'' [123, 125]))))"
proof -
  have u: "[1..2::int] = [1, 2]"
    by (simp add: upto.simps)
  have d: "backoff_delay (publisher 3) 1 = 100000000"
    "backoff_delay (publisher 3) 2 = 200000000"
    by (simp_all add: backoff_delay_def publisher_def)
  have m: "maxRetries (publisher 3) = 3" "retryBaseDelay (publisher 3) = 100000000"
    by (simp_all add: publisher_def)
  have e: "backoff_select broker_nack = BackoffElapsed"
    by (simp add: broker_nack_def broker_ack_def)
  from Publish_backoff_delays [of marshal "[123, 125]" "[123, 125]" 2 "publisher 3"
      "\<lambda>k. broker_nack" Canceled "''meter.reading.ingested''"]
  show ?thesis
    by (simp add: attempt_error_nack marshal_def m u d e)
qed

text \<open>
  Claim C3 as stated, for every base delay and every \<open>k < maxRetries\<close>, fails in two
  ways. With the base delay of -100 ms, which \<open>NewPublisher\<close> accepts, the timers of
  both waits fire at once: nothing is waited, where the claim has -100 ms and
  -200 ms. With the default base delay of 100 ms the product for attempt 38 does
  not fit in 64 bits: the duration is negative and nothing is waited, where the
  claim has 100 ms times \<open>2 ^ 37\<close>.
\<close>

theorem Publish_backoff_not_waited:
  "map waited (delays (snd (snd (Publish marshal (\<lambda>k. broker_nack) Canceled publisher_neg
       ''meter.reading.ingested'' [123, 125])))) = [0, 0] \<and>
   sint (retryBaseDelay publisher_neg) * 2 ^ 0 = - 100000000 \<and>
   waited (backoff_delay (publisher 39) 38) = 0 \<and>
   sint (retryBaseDelay (publisher 39)) * 2 ^ 37 = 13743895347200000000"
proof -
  have c: "\<forall>i<3. \<exists>err. attempt_from (\<lambda>k. broker_nack) Canceled ''meter.reading.ingested''
      [123, 125] publisher_neg 1 i = Continue err"
    by (simp add: attempt_from_nack)
  have m: "maxRetries publisher_neg = 3"
    by (simp add: publisher_neg_def publisher_def)
  have b: "1 + int 3 = maxRetries publisher_neg + 1"
    by (simp add: m)
  have u: "[1..2::int] = [1, 2]"
    by (simp add: upto.simps)
  from Publish_loop_delays [OF c b, of None "[]"]
  have "delays (snd (snd (Publish marshal (\<lambda>k. broker_nack) Canceled publisher_neg
       ''meter.reading.ingested'' [123, 125]))) =
     [backoff_delay publisher_neg 1, backoff_delay publisher_neg 2]"
    by (simp add: Publish_def marshal_def m u)
  moreover have "waited (backoff_delay publisher_neg 1) = 0"
    "waited (backoff_delay publisher_neg 2) = 0"
    by (simp_all add: waited_def backoff_delay_def publisher_neg_def publisher_def)
  moreover have "waited (backoff_delay (publisher 39) 38) = 0"
    by (simp add: waited_def backoff_delay_def publisher_def)
  ultimately show ?thesis
    by (simp add: publisher_neg_def publisher_def)
qed

subsection \<open>No attempts\<close>

text \<open>
  Claim C9. If the message serialises and \<open>maxRetries\<close> is zero or negative,
  \<open>Publish\<close> returns the aggregate error at once: the trace is empty (no health
  check, no reconnect, no publish), the publisher is unchanged, and the error wraps a
  nil cause.
\<close>

theorem Publish_no_attempts:
  assumes "json_Marshal message = Inr body" and "maxRetries p \<le> 0"
  shows "\<exists>agg. Publish json_Marshal env ctx p routingKey message = (Some agg, p, []) \<and>
           agg = WrapError ''failed to publish after %d attempts: %w'' [maxRetries p] None \<and>
           Unwrap agg = None"
  using assms by (simp add: Publish_def Publish_loop_exit)

theorem Publish_no_attempts_witness:
  "Publish marshal (\<lambda>k. broker_ack) Canceled (publisher 0) ''meter.reading.ingested''
       [123, 125] =
     (Some (WrapError ''failed to publish after %d attempts: %w'' [0] None), publisher 0, [])"
  using Publish_no_attempts [of marshal "[123, 125]" "[123, 125]" "publisher 0"
      "\<lambda>k. broker_ack" Canceled "''meter.reading.ingested''"]
  by (simp add: marshal_def publisher_def)

subsection \<open>One confirmation cycle\<close>

text \<open>
  Claim C5. When the channel exists and the submission succeeds, the result of
  \<open>publishWithConfirm\<close> tells which case of the select was taken: nil exactly for a
  positive acknowledgment, the nack error exactly for a negative one, the context's
  error exactly when the context was done, the timeout error exactly when the
  confirmation timer fired. The four results are distinct, so exactly one holds.
\<close>

theorem publishWithConfirm_outcomes:
  assumes "channel p = Some ch" and "channel_PublishWithContext b = None"
  shows "(fst (publishWithConfirm b ctx p routingKey body) = None
            \<longleftrightarrow> confirm_select b = Confirmation True) \<and>
         (fst (publishWithConfirm b ctx p routingKey body) =
            Some (ErrorString ''publish not acknowledged by broker'')
            \<longleftrightarrow> confirm_select b = Confirmation False) \<and>
         (fst (publishWithConfirm b ctx p routingKey body) = Some (ContextError ctx)
            \<longleftrightarrow> confirm_select b = CtxDone) \<and>
         (fst (publishWithConfirm b ctx p routingKey body) =
            Some (ErrorString ''confirmation timeout'')
            \<longleftrightarrow> confirm_select b = ConfirmTimeout)"
  using assms
  by (cases "confirm_select b") (auto simp: publishWithConfirm_def Let_def)

theorem publishWithConfirm_outcomes_witness:
  "fst (publishWithConfirm broker_nack Canceled (publisher 3) ''meter.reading.ingested''
          [123, 125]) = Some (ErrorString ''publish not acknowledged by broker'')"
  using publishWithConfirm_outcomes [of "publisher 3" 2 broker_nack Canceled
      "''meter.reading.ingested''" "[123, 125]"]
  by (simp add: publisher_def broker_nack_def broker_ack_def)

subsection \<open>Cancellation\<close>

text \<open>
  Claim C4 fails on the final attempt. With one attempt allowed and the context
  cancelled during the confirmation wait, \<open>publishWithConfirm\<close> returns the context's
  error, no backoff select follows the final attempt, and \<open>Publish\<close> returns the
  aggregate error that wraps it. With two attempts allowed the backoff select after
  attempt 1 sees the context done and \<open>Publish\<close> returns the context's error itself.
\<close>

theorem Publish_cancelled_on_final_attempt:
  "fst (Publish marshal (\<lambda>k. broker_cancel) Canceled (publisher 1) ''meter.reading.ingested''
          [123, 125]) =
     Some (WrapError ''failed to publish after %d attempts: %w'' [1]
             (Some (ContextError Canceled))) \<and>
   fst (Publish marshal (\<lambda>k. broker_cancel) Canceled (publisher 2) ''meter.reading.ingested''
          [123, 125]) = Some (ContextError Canceled)"
  by (simp add: Publish_def marshal_def Publish_loop.simps Publish_attempt_def
        Publish_confirm_def publishWithConfirm_def isHealthy_def publisher_def
        broker_cancel_def broker_ack_def)

subsection \<open>Close\<close>

lemma Close_frame:
  "maxRetries (fst (snd (Close b p))) = maxRetries p \<and>
   rabbitMQURL (fst (snd (Close b p))) = rabbitMQURL p \<and>
   channel (fst (snd (Close b p))) = None"
  by (simp add: Close_def Let_def split: option.splits)

lemma Publish_attempt_reconnects:
  assumes "channel q = None"
    and "amqp_Dial b = Inr c" and "conn_Channel b = Inr ch" and "channel_Confirm b = None"
    and "channel_PublishWithContext b = None" and "confirm_select b = Confirmation True"
  shows "\<exists>tr. Publish_attempt b ctx rk body q a =
           (Return None,
            q\<lparr>conn := Some c, channel := Some ch, confirms := Some (channel_NotifyPublish b)\<rparr>,
            tr) \<and>
         Dial (rabbitMQURL q) \<in> set tr"
  using assms
  by (simp add: Publish_attempt_def Publish_confirm_def publishWithConfirm_def isHealthy_def
        reconnect_def connect_def Let_def
        split: option.splits)

text \<open>
  Claim C6, as amended. \<open>Close\<close> closes the channel, if there is one, and then the
  connection, if there is one. When a call of \<open>Close\<close> has returned nil, both handles
  are nil and a second call closes nothing, leaves the publisher as it is and returns
  nil again, with the same log line as the first: it reports no already-closed
  condition. Every call on a handle stands under the nil test of the source, so no
  call of \<open>Close\<close> dereferences a nil handle.
\<close>

theorem Close_twice:
  "closes (snd (snd (Close b p))) =
     (case channel p of Some ch \<Rightarrow> [ChannelClose ch] | None \<Rightarrow> []) @
     (case conn p of Some c \<Rightarrow> [ConnClose c] | None \<Rightarrow> []) \<and>
   (fst (Close b p) = None \<longrightarrow>
      channel (fst (snd (Close b p))) = None \<and> conn (fst (snd (Close b p))) = None \<and>
      Close b' (fst (snd (Close b p))) =
        (None, fst (snd (Close b p)),
         [Lock, Log InfoLevel ''RabbitMQ publisher closed'', Unlock]))"
  by (simp add: Close_def Let_def split: option.splits)

theorem Close_twice_witness:
  "closes (snd (snd (Close broker_ack (publisher 3)))) = [ChannelClose 2, ConnClose 1] \<and>
   Close broker_down (fst (snd (Close broker_ack (publisher 3)))) =
     (None, (publisher 3)\<lparr>conn := None, channel := None\<rparr>,
      [Lock, Log InfoLevel ''RabbitMQ publisher closed'', Unlock])"
proof -
  have f: "fst (Close broker_ack (publisher 3)) = None"
    "fst (snd (Close broker_ack (publisher 3))) = (publisher 3)\<lparr>conn := None, channel := None\<rparr>"
    by (simp_all add: Close_def Let_def publisher_def broker_ack_def)
  from Close_twice [of broker_ack "publisher 3" broker_down] f show ?thesis
    by (simp add: publisher_def)
qed

text \<open>
  Claim C6 as stated has the second call report an already-closed condition. On a
  connected publisher closed with success, the second call returns nil and logs
  \<open>RabbitMQ publisher closed\<close>, as a first call does.
\<close>

theorem Close_second_call_returns_nil:
  "fst (Close broker_ack (fst (snd (Close broker_ack (publisher 3))))) = None \<and>
   snd (snd (Close broker_ack (fst (snd (Close broker_ack (publisher 3)))))) =
     [Lock, Log InfoLevel ''RabbitMQ publisher closed'', Unlock]"
  by (simp add: Close_def Let_def publisher_def broker_ack_def)

text \<open>
  Claim C7, as amended. After \<open>Close\<close> the channel handle is nil, so the health check
  of the next \<open>Publish\<close> fails and its first attempt dials the broker again. When that
  reconnect succeeds and the broker acknowledges the message, \<open>Publish\<close> returns nil
  and leaves the publisher with the new connection and channel.
\<close>

theorem Publish_after_Close:
  assumes "json_Marshal message = Inr body" and "1 \<le> maxRetries p"
    and "amqp_Dial (env 1) = Inr c" and "conn_Channel (env 1) = Inr ch"
    and "channel_Confirm (env 1) = None"
    and "channel_PublishWithContext (env 1) = None"
    and "confirm_select (env 1) = Confirmation True"
  shows "fst (isHealthy b' (fst (snd (Close b p)))) = False \<and>
         (\<exists>tr. Publish json_Marshal env ctx (fst (snd (Close b p))) routingKey message =
            (None,
             (fst (snd (Close b p)))\<lparr>conn := Some c, channel := Some ch,
               confirms := Some (channel_NotifyPublish (env 1))\<rparr>,
             tr) \<and>
            Dial (rabbitMQURL p) \<in> set tr)"
proof
  show "fst (isHealthy b' (fst (snd (Close b p)))) = False"
    using Close_frame [of b p] by (simp add: isHealthy_def split: option.splits)
next
  let ?q = "fst (snd (Close b p))"
  from Close_frame [of b p] have q: "channel ?q = None" "maxRetries ?q = maxRetries p"
    "rabbitMQURL ?q = rabbitMQURL p"
    by simp_all
  from Publish_attempt_reconnects [OF q(1) assms(3-7), of ctx routingKey body 1]
  obtain tr where
    a: "Publish_attempt (env 1) ctx routingKey body ?q 1 =
        (Return None,
         ?q\<lparr>conn := Some c, channel := Some ch,
           confirms := Some (channel_NotifyPublish (env 1))\<rparr>, tr)"
    and d: "Dial (rabbitMQURL ?q) \<in> set tr"
    by blast
  have "1 \<le> maxRetries ?q"
    using assms(2) q(2) by simp
  from Publish_loop_Return [where env = env and attempt = 1 and lastErr = None and tr = "[]",
      OF this a] assms(1) d q(3)
  show "\<exists>tr. Publish json_Marshal env ctx ?q routingKey message =
            (None,
             ?q\<lparr>conn := Some c, channel := Some ch,
               confirms := Some (channel_NotifyPublish (env 1))\<rparr>,
             tr) \<and>
            Dial (rabbitMQURL p) \<in> set tr"
    by (simp add: Publish_def)
qed

theorem Publish_after_Close_witness:
  "fst (Publish marshal (\<lambda>k. broker_ack) DeadlineExceeded
          (fst (snd (Close broker_down (publisher 1)))) ''meter.reading.ingested'' []) = None"
  using Publish_after_Close [of marshal "[]" "[]" "publisher 1" "\<lambda>k. broker_ack" 4 5
      broker_down broker_down DeadlineExceeded "''meter.reading.ingested''"]
  by (auto simp: marshal_def publisher_def broker_ack_def)

text \<open>
  Claim C7 as stated has every \<open>Publish\<close> after \<open>Close\<close> fail. With a broker that
  accepts the new connection and acknowledges, it returns nil.
\<close>

theorem Publish_after_Close_succeeds:
  "fst (Publish marshal (\<lambda>k. broker_ack) Canceled
          (fst (snd (Close broker_ack (publisher 3)))) ''meter.reading.ingested''
          [123, 125]) = None"
  by (simp add: Publish_def marshal_def Publish_loop.simps Publish_attempt_def
        Publish_confirm_def publishWithConfirm_def isHealthy_def reconnect_def connect_def
        Close_def Let_def publisher_def broker_ack_def)

subsection \<open>The scope of the mutex\<close>



subsection \<open>The fingerprint\<close>

text \<open>
  Claim C10. The fingerprint depends only on the concatenation of the IP address and
  the User-Agent: two pairs with the same concatenation get the same fingerprint,
  whatever the digest function is.
\<close>

theorem Generate_concat:
  "ip1 @ ua1 = ip2 @ ua2 \<Longrightarrow> Generate h ip1 ua1 = Generate h ip2 ua2"
  by (simp add: Generate_def)

theorem Generate_concat_witness:
  "\<forall>h. Generate h ''10.0.0.1'' ''2curl'' = Generate h ''10.0.0.12'' ''curl''"
  using Generate_concat [of "''10.0.0.1''" "''2curl''" "''10.0.0.12''" "''curl''"]
  by simp

end
